theory Spec2Isabelle
  imports Complex_Main "HOL-Library.Multiset"
begin

section \<open>The combined contribution graph generator\<close>

text \<open>
  A shallow embedding of \<^verbatim>\<open>scripts/generate_combined_graph.js\<close>: the script reads its
  configuration from the environment, asks a remote GraphQL endpoint for the contribution
  calendar of every configured account, sums the daily counts, lays the days out on a grid
  of whole weeks and writes the grid as an SVG document.

  Conventions of the embedding.
  \<^item> A JavaScript \<^verbatim>\<open>Date\<close> is its time value, an \<^typ>\<open>int\<close> of milliseconds since
    1970-01-01T00:00:00Z, taken to lie in the range where a \<^verbatim>\<open>Date\<close> is valid. All the
    script's date operations are the UTC ones.
  \<^item> A contribution count is a \<^typ>\<open>nat\<close>: the remote schema delivers a count of
    contributions. Counts and their sums are taken to stay below \<open>2^51\<close>, where the
    script's floating point sums, quotients, products and roundings are the exact ones;
    quotients are modelled in \<^typ>\<open>rat\<close>.
  \<^item> Strings are \<^typ>\<open>string\<close>; the configuration is taken to be ASCII.
  \<^item> The aggregation object is a map from strings to counts. Its keys are the first ten
    characters of the dates the remote endpoint reports, which are ISO dates and so never
    the name of a property that a JavaScript object inherits.
\<close>

subsection \<open>Numbers as text\<close>

definition digit :: "int \<Rightarrow> char" where
  "digit n = char_of (48 + n mod 10)"

text \<open>\<open>digits k n\<close>: the last \<open>k\<close> decimal digits of \<open>n\<close>, zero padded.\<close>

fun digits :: "nat \<Rightarrow> int \<Rightarrow> string" where
  "digits 0 n = []"
| "digits (Suc k) n = digits k (n div 10) @ [digit n]"

function decimal :: "int \<Rightarrow> string" where
  "decimal n = (if n < 10 then [digit n] else decimal (n div 10) @ [digit n])"
  by pat_completeness auto
termination
  by (relation "measure nat") simp_all

text \<open>An integral number inside a template literal: \<^verbatim>\<open>`${n}`\<close>.\<close>

definition show_int :: "int \<Rightarrow> string" where
  "show_int n = (if n < 0 then CHR ''-'' # decimal (- n) else decimal n)"

subsection \<open>Dates\<close>

definition oneDay :: int where
  "oneDay = 24 * 60 * 60 * 1000"

text \<open>\<^verbatim>\<open>d.setUTCHours(0,0,0,0)\<close>: the start of the UTC day that contains \<open>t\<close>.\<close>

definition setUTCHours0 :: "int \<Rightarrow> int" where
  "setUTCHours0 t = t - t mod oneDay"

text \<open>\<^verbatim>\<open>d.getUTCDay()\<close>: 0 is Sunday; 1970-01-01 was a Thursday.\<close>

definition getUTCDay :: "int \<Rightarrow> int" where
  "getUTCDay t = (t div oneDay + 4) mod 7"

text \<open>The proleptic Gregorian calendar date \<open>(year, month, day)\<close> of a day number.\<close>

definition civil_from_days :: "int \<Rightarrow> int \<times> int \<times> int" where
  "civil_from_days n =
    (let z = n + 719468;
         era = z div 146097;
         doe = z - era * 146097;
         yoe = (doe - doe div 1460 + doe div 36524 - doe div 146096) div 365;
         doy = doe - (365 * yoe + yoe div 4 - yoe div 100);
         mp = (5 * doy + 2) div 153;
         d = doy - (153 * mp + 2) div 5 + 1;
         m = (if mp < 10 then mp + 3 else mp - 9);
         y = yoe + era * 400 + (if m \<le> 2 then 1 else 0)
     in (y, m, d))"

text \<open>\<^verbatim>\<open>d.getUTCDate()\<close>: the day of the month.\<close>

definition getUTCDate :: "int \<Rightarrow> int" where
  "getUTCDate t = (case civil_from_days (t div oneDay) of (y, m, d) \<Rightarrow> d)"

text \<open>
  \<^verbatim>\<open>d.setUTCDate(dt)\<close>: the day of the month is set to \<open>dt\<close>, which need not lie in the
  month. The new day is counted from the first of the month of \<open>t\<close>, which is the day
  \<open>getUTCDate t - 1\<close> days before that of \<open>t\<close>, and is \<open>dt - 1\<close> days after it; the time
  within the day stays.
\<close>

definition setUTCDate :: "int \<Rightarrow> int \<Rightarrow> int" where
  "setUTCDate t dt = (t div oneDay - (getUTCDate t - 1) + (dt - 1)) * oneDay + t mod oneDay"

definition year_text :: "int \<Rightarrow> string" where
  "year_text y =
    (if 0 \<le> y \<and> y \<le> 9999 then digits 4 y
     else (if y < 0 then CHR ''-'' else CHR ''+'') # digits 6 \<bar>y\<bar>)"

text \<open>\<^verbatim>\<open>d.toISOString()\<close>: \<^verbatim>\<open>YYYY-MM-DDTHH:mm:ss.sssZ\<close>.\<close>

definition toISOString :: "int \<Rightarrow> string" where
  "toISOString t =
    (case civil_from_days (t div oneDay) of (y, m, d) \<Rightarrow>
       let ms = t mod oneDay
       in year_text y @ ''-'' @ digits 2 m @ ''-'' @ digits 2 d @ ''T'' @
          digits 2 (ms div 3600000) @ '':'' @ digits 2 (ms div 60000 mod 60) @ '':'' @
          digits 2 (ms div 1000 mod 60) @ ''.'' @ digits 3 (ms mod 1000) @ ''Z'')"

text \<open>\<^verbatim>\<open>Math.round\<close> and \<^verbatim>\<open>Math.ceil\<close> on exact quotients.\<close>

definition js_round :: "rat \<Rightarrow> int" where
  "js_round x = \<lfloor>x + 1 / 2\<rfloor>"

definition js_ceil :: "rat \<Rightarrow> int" where
  "js_ceil x = \<lceil>x\<rceil>"

subsection \<open>Configuration\<close>

text \<open>
  The environment variables the script reads. \<open>None\<close> is an unset variable. A numeric
  variable that is set holds the decimal text of an integer, which \<^verbatim>\<open>Number\<close> reads.
\<close>

record environment =
  GH_PAT :: "string option"
  GH_TOKEN :: "string option"
  GITHUB_TOKEN :: "string option"
  USERNAMES_var :: "string option"
  DAYS_var :: "int option"
  CELL_SIZE_var :: "int option"
  GAP_var :: "int option"

text \<open>\<^verbatim>\<open>a || b\<close> on environment strings: an unset variable and the empty string are falsy.\<close>

definition or_else :: "string option \<Rightarrow> string option \<Rightarrow> string option" where
  "or_else a b = (case a of None \<Rightarrow> b | Some s \<Rightarrow> if s = [] then b else Some s)"

definition TOKEN :: "environment \<Rightarrow> string option" where
  "TOKEN e = or_else (or_else (or_else (GH_PAT e) (GH_TOKEN e)) (GITHUB_TOKEN e)) None"

text \<open>\<^verbatim>\<open>s.split(',')\<close>: the pieces between the separators; never an empty list.\<close>

fun split_on :: "char \<Rightarrow> string \<Rightarrow> string list" where
  "split_on c [] = [[]]"
| "split_on c (x # xs) =
    (if x = c then [] # split_on c xs
     else (case split_on c xs of [] \<Rightarrow> [[x]] | w # ws \<Rightarrow> (x # w) # ws))"

text \<open>The ASCII white space \<^verbatim>\<open>trim\<close> removes: tab, line feed, vertical tab, form feed,
  carriage return and space.\<close>

definition isSpace :: "char \<Rightarrow> bool" where
  "isSpace c = (c = CHR 0x09 \<or> c = CHR 0x0A \<or> c = CHR 0x0B \<or> c = CHR 0x0C \<or> c = CHR 0x0D \<or> c = CHR 0x20)"

definition trim :: "string \<Rightarrow> string" where
  "trim s = rev (dropWhile isSpace (rev (dropWhile isSpace s)))"

definition default_usernames :: string where
  "default_usernames = ''migaradenuwan,MigaraDenuwan-Tokyo''"

definition USERNAMES :: "environment \<Rightarrow> string list" where
  "USERNAMES e =
    filter (\<lambda>s. s \<noteq> [])
      (map trim (split_on CHR '','' (case or_else (USERNAMES_var e) None of
                                       None \<Rightarrow> default_usernames | Some s \<Rightarrow> s)))"

definition DAYS :: "environment \<Rightarrow> int" where
  "DAYS e = (case DAYS_var e of None \<Rightarrow> 365 | Some n \<Rightarrow> n)"

definition cell :: "environment \<Rightarrow> int" where
  "cell e = (case CELL_SIZE_var e of None \<Rightarrow> 12 | Some n \<Rightarrow> n)"

definition gap :: "environment \<Rightarrow> int" where
  "gap e = (case GAP_var e of None \<Rightarrow> 3 | Some n \<Rightarrow> n)"

subsection \<open>The window\<close>

definition today :: "int \<Rightarrow> int" where
  "today now = setUTCHours0 now"

definition fromDate :: "int \<Rightarrow> int \<Rightarrow> int" where
  "fromDate now days = (let t = today now in setUTCDate t (getUTCDate t - (days - 1)))"

definition toDate :: "int \<Rightarrow> int" where
  "toDate now = today now"

subsection \<open>The remote calendar\<close>

text \<open>
  One day of the remote contribution calendar, \<^verbatim>\<open>{date, contributionCount}\<close>, and the
  \<^verbatim>\<open>{date, count}\<close> record \<^verbatim>\<open>doFetch\<close> makes of it.
\<close>

record contributionDay =
  cd_date :: string
  contributionCount :: nat

record day =
  day_date :: string
  day_count :: nat

text \<open>
  What one request comes back with, by the path \<^verbatim>\<open>doFetch\<close> takes on it:
  \<^item> \<open>Thrown m\<close>: \<^verbatim>\<open>fetch\<close> or \<^verbatim>\<open>resp.json()\<close> rejects, or a nested field of the answer
    is missing and the property access throws; \<open>m\<close> is the error's message;
  \<^item> \<open>GraphQLErrors e\<close>: the answer has a truthy \<^verbatim>\<open>errors\<close> field, whose JSON text is \<open>e\<close>;
  \<^item> \<open>Calendar ws\<close>: the answer has the calendar; \<open>ws\<close> is its \<^verbatim>\<open>weeks\<close> field, \<open>None\<close>
    when that field is null or absent, otherwise the \<^verbatim>\<open>contributionDays\<close> of every week.
\<close>

datatype reply =
  Thrown string
| GraphQLErrors string
| Calendar "contributionDay list list option"

text \<open>The request: the variables of the query and the authorization header.\<close>

record request =
  var_login :: string
  var_from :: string
  var_to :: string
  authorization :: "string option"

text \<open>Everything a run depends on: the environment, the clock, whether the runtime has a
  global \<^verbatim>\<open>fetch\<close>, and the remote endpoint.\<close>

record world =
  env :: environment
  clock :: int
  fetch_defined :: bool
  remote :: "request \<Rightarrow> reply"

definition fetch_request :: "world \<Rightarrow> string \<Rightarrow> request" where
  "fetch_request w login =
    \<lparr>var_login = login,
     var_from = toISOString (fromDate (clock w) (DAYS (env w))),
     var_to = toISOString (toDate (clock w)),
     authorization = map_option (\<lambda>t. ''bearer '' @ t) (TOKEN (env w))\<rparr>"

definition doFetch :: "world \<Rightarrow> string \<Rightarrow> string + day list" where
  "doFetch w login =
    (case remote w (fetch_request w login) of
       Thrown m \<Rightarrow> Inl m
     | GraphQLErrors e \<Rightarrow> Inl (''GraphQL error for '' @ login @ '': '' @ e)
     | Calendar weeks \<Rightarrow>
         Inr (concat (map (map (\<lambda>d. \<lparr>day_date = take 10 (cd_date d),
                                         day_count = contributionCount d\<rparr>))
                          (case weeks of None \<Rightarrow> [] | Some ws \<Rightarrow> ws))))"

subsection \<open>Aggregation\<close>

text \<open>\<^verbatim>\<open>for(const d of days) aggregated[d.date] = (aggregated[d.date] || 0) + d.count\<close>\<close>

primrec add_days :: "day list \<Rightarrow> (string \<rightharpoonup> nat) \<Rightarrow> (string \<rightharpoonup> nat)" where
  "add_days [] a = a"
| "add_days (d # ds) a =
    add_days ds (a(day_date d \<mapsto> (case a (day_date d) of None \<Rightarrow> 0 | Some c \<Rightarrow> c) + day_count d))"

datatype console_line = is_Log: Log string | is_Warn: Warn string | is_Error: Error string

text \<open>The state of the fetch loop: the aggregation, \<^verbatim>\<open>process.exitCode\<close> (\<open>None\<close> while
  it is undefined) and what was printed.\<close>

record run_state =
  aggregated :: "string \<rightharpoonup> nat"
  exitCode :: "nat option"
  console :: "console_line list"

definition fetch_user :: "world \<Rightarrow> string \<Rightarrow> run_state \<Rightarrow> run_state" where
  "fetch_user w user s =
    (let s1 = s\<lparr>console := console s @ [Log (''Fetching contributions for '' @ user)]\<rparr>
     in case doFetch w user of
          Inr days \<Rightarrow> s1\<lparr>aggregated := add_days days (aggregated s1)\<rparr>
        | Inl message \<Rightarrow>
            s1\<lparr>exitCode := Some 2,
               console := console s1 @ [Error (''Failed to fetch for '' @ user @ '' '' @ message)]\<rparr>)"

primrec fetch_loop :: "world \<Rightarrow> string list \<Rightarrow> run_state \<Rightarrow> run_state" where
  "fetch_loop w [] s = s"
| "fetch_loop w (user # users) s = fetch_loop w users (fetch_user w user s)"

subsection \<open>The grid\<close>

definition start :: "int \<Rightarrow> int \<Rightarrow> int" where
  "start now days =
    (let s = fromDate now days; startDay = getUTCDay s in setUTCDate s (getUTCDate s - startDay))"

definition end' :: "int \<Rightarrow> int" where
  "end' now =
    (let e = toDate now; endDay = getUTCDay e in setUTCDate e (getUTCDate e + (6 - endDay)))"

definition totalDays :: "int \<Rightarrow> int \<Rightarrow> int" where
  "totalDays now days = js_round (of_int (end' now - start now days) / of_int oneDay) + 1"

definition weeks :: "int \<Rightarrow> int \<Rightarrow> int" where
  "weeks now days = js_ceil (of_int (totalDays now days) / 7)"

record entry =
  entry_date :: int
  entry_iso :: string
  entry_count :: nat

text \<open>\<^verbatim>\<open>for(let i=0;i<totalDays;i++)\<close> pushes one entry per index; the count is
  \<^verbatim>\<open>aggregated[iso] || 0\<close>.\<close>

definition date_entry :: "int \<Rightarrow> int \<Rightarrow> (string \<rightharpoonup> nat) \<Rightarrow> nat \<Rightarrow> entry" where
  "date_entry now days agg i =
    (let d = start now days + int i * oneDay;
         iso = take 10 (toISOString d)
     in \<lparr>entry_date = d, entry_iso = iso,
         entry_count = (case agg iso of None \<Rightarrow> 0 | Some c \<Rightarrow> c)\<rparr>)"

definition dates :: "int \<Rightarrow> int \<Rightarrow> (string \<rightharpoonup> nat) \<Rightarrow> entry list" where
  "dates now days agg = map (date_entry now days agg) [0..<nat (totalDays now days)]"

text \<open>\<^verbatim>\<open>Math.max(0, ...dates.map(d=>d.count))\<close>\<close>

definition max_count :: "entry list \<Rightarrow> nat" where
  "max_count ds = fold max (map entry_count ds) 0"

definition colors :: "string list" where
  "colors = [''#ebedf0'', ''#9be9a8'', ''#40c463'', ''#30a14e'', ''#216e39'']"

text \<open>
  A JavaScript number as \<^verbatim>\<open>colorFor\<close> can meet it: a finite value, \<^verbatim>\<open>Infinity\<close> or \<^verbatim>\<open>NaN\<close>.
  A division by zero does not throw: it gives \<^verbatim>\<open>Infinity\<close> for a positive dividend and
  \<^verbatim>\<open>NaN\<close> for \<^verbatim>\<open>0 / 0\<close>, and both pass through the arithmetic that follows.
\<close>

datatype js_number = Finite rat | Infinity | NaN

text \<open>\<^verbatim>\<open>a / b\<close> on two counts.\<close>

definition js_divide :: "nat \<Rightarrow> nat \<Rightarrow> js_number" where
  "js_divide a b =
    (if b = 0 then (if a = 0 then NaN else Infinity) else Finite (of_nat a / of_nat b))"

text \<open>\<^verbatim>\<open>x * k\<close> for a count \<open>k\<close>; \<^verbatim>\<open>Infinity * 0\<close> is \<^verbatim>\<open>NaN\<close>.\<close>

definition js_times :: "js_number \<Rightarrow> nat \<Rightarrow> js_number" where
  "js_times x k =
    (case x of
       Finite q \<Rightarrow> Finite (q * of_nat k)
     | Infinity \<Rightarrow> (if k = 0 then NaN else Infinity)
     | NaN \<Rightarrow> NaN)"

text \<open>\<^verbatim>\<open>Math.ceil(x)\<close> and \<^verbatim>\<open>Math.min(x, k)\<close> for a count \<open>k\<close>.\<close>

definition Math_ceil :: "js_number \<Rightarrow> js_number" where
  "Math_ceil x =
    (case x of Finite q \<Rightarrow> Finite (of_int (js_ceil q)) | Infinity \<Rightarrow> Infinity | NaN \<Rightarrow> NaN)"

definition Math_min :: "js_number \<Rightarrow> nat \<Rightarrow> js_number" where
  "Math_min x k =
    (case x of
       Finite q \<Rightarrow> Finite (min q (of_nat k))
     | Infinity \<Rightarrow> Finite (of_nat k)
     | NaN \<Rightarrow> NaN)"

text \<open>
  The quotient \<^verbatim>\<open>cnt / max\<close> that \<^verbatim>\<open>colorFor\<close> takes: \<open>None\<close> when it returns \<^verbatim>\<open>colors[0]\<close>
  at one of its two tests, before the quotient.
\<close>

definition colorQuotient :: "nat \<Rightarrow> nat \<Rightarrow> js_number option" where
  "colorQuotient mx cnt =
    (if cnt = 0 then None
     else if mx = 0 then None
     else Some (js_divide cnt mx))"

text \<open>
  The index \<^verbatim>\<open>colorFor\<close> reads \<^verbatim>\<open>colors\<close> at: 0 at the two tests, and otherwise
  \<^verbatim>\<open>Math.min(level, colors.length - 1)\<close> for the \<^verbatim>\<open>level\<close> made of the quotient. An index
  that is not a number is no index of the array, here its length.
\<close>

definition colorIndex :: "nat \<Rightarrow> nat \<Rightarrow> nat" where
  "colorIndex mx cnt =
    (case colorQuotient mx cnt of
       None \<Rightarrow> 0
     | Some q \<Rightarrow>
         let level = Math_ceil (js_times q (length colors - 1))
         in (case Math_min level (length colors - 1) of
               Finite i \<Rightarrow> nat \<lfloor>i\<rfloor>
             | Infinity \<Rightarrow> length colors
             | NaN \<Rightarrow> length colors))"

text \<open>\<^verbatim>\<open>colorFor\<close>: the element of \<^verbatim>\<open>colors\<close> at that index; outside the array the read
  gives \<^verbatim>\<open>undefined\<close>, which a template literal prints so.\<close>

definition colorFor :: "nat \<Rightarrow> nat \<Rightarrow> string" where
  "colorFor mx cnt =
    (let i = colorIndex mx cnt in if i < length colors then colors ! i else ''undefined'')"

subsection \<open>Rendering\<close>

definition leftPad :: int where
  "leftPad = 20"

definition topPad :: int where
  "topPad = 12"

text \<open>One cell of the image: the attributes of its \<^verbatim>\<open>rect\<close> element and its tooltip.\<close>

record rect =
  rect_x :: int
  rect_y :: int
  rect_width :: int
  rect_height :: int
  rect_rx :: int
  rect_ry :: int
  rect_fill :: string
  rect_title :: string

text \<open>The body of the rendering loop at index \<open>i\<close>, for the entry \<^verbatim>\<open>dates[i]\<close>.\<close>

definition cell_rect :: "int \<Rightarrow> int \<Rightarrow> nat \<Rightarrow> nat \<Rightarrow> entry \<Rightarrow> rect" where
  "cell_rect cell_size cell_gap mx i e =
    (let weekday = getUTCDay (entry_date e);
         weekIndex = int (i div 7);
         x = leftPad + weekIndex * (cell_size + cell_gap);
         y = topPad + weekday * (cell_size + cell_gap);
         fill = colorFor mx (entry_count e)
     in \<lparr>rect_x = x, rect_y = y, rect_width = cell_size, rect_height = cell_size,
         rect_rx = 3, rect_ry = 3, rect_fill = fill,
         rect_title = entry_iso e @ '': '' @ show_int (int (entry_count e)) @ '' contribution'' @
                      (if entry_count e \<noteq> 1 then ''s'' else [])\<rparr>)"

definition cell_rects :: "int \<Rightarrow> int \<Rightarrow> entry list \<Rightarrow> rect list" where
  "cell_rects cell_size cell_gap ds =
    map (\<lambda>i. cell_rect cell_size cell_gap (max_count ds) i (ds ! i)) [0..<length ds]"

definition rect_svg :: "rect \<Rightarrow> string" where
  \<open>rect_svg r =
    ''<rect x="'' @ show_int (rect_x r) @ ''" y="'' @ show_int (rect_y r) @
    ''" width="'' @ show_int (rect_width r) @ ''" height="'' @ show_int (rect_height r) @
    ''" rx="'' @ show_int (rect_rx r) @ ''" ry="'' @ show_int (rect_ry r) @
    ''" fill="'' @ rect_fill r @ ''">'' @
    ''<title>'' @ rect_title r @ ''</title>'' @
    ''</rect>\<newline>''\<close>

definition svg_document :: "int \<Rightarrow> int \<Rightarrow> int \<Rightarrow> entry list \<Rightarrow> string" where
  \<open>svg_document cell_size cell_gap wks ds =
    (let svgW = wks * (cell_size + cell_gap) + leftPad + 10;
         svgH = 7 * (cell_size + cell_gap) + topPad + 10
     in ''<?xml version="1.0" encoding="UTF-8"?>\<newline>'' @
        ''<svg xmlns="http://www.w3.org/2000/svg" width="'' @ show_int svgW @
        ''" height="'' @ show_int svgH @
        ''" viewBox="0 0 '' @ show_int svgW @ '' '' @ show_int svgH @ ''">\<newline>'' @
        ''<rect width="100%" height="100%" fill="transparent"/>\<newline>'' @
        concat (map rect_svg (cell_rects cell_size cell_gap ds)) @
        ''</svg>\<newline>'')\<close>

subsection \<open>The run\<close>

text \<open>
  What a run leaves behind: the exit status of the process, the contents written to
  \<^verbatim>\<open>combined-graph.svg\<close> (\<open>None\<close> when the file is not written) and the console. The file
  system is taken to accept the write.
\<close>

record outcome =
  exit_status :: nat
  artifact :: "string option"
  printed :: "console_line list"

definition token_warning :: "environment \<Rightarrow> console_line list" where
  \<open>token_warning e =
    (if TOKEN e = None
     then [Warn ''Warning: no GH token found in env. You may be rate-limited or private contributions won't appear.'']
     else [])\<close>

text \<open>The fetch loop of the run, from the empty aggregation.\<close>

definition fetched :: "world \<Rightarrow> run_state" where
  "fetched w =
    fetch_loop w (USERNAMES (env w))
      \<lparr>aggregated = Map.empty, exitCode = None, console = token_warning (env w)\<rparr>"

definition main :: "world \<Rightarrow> outcome" where
  "main w =
    (if \<not> fetch_defined w
     then \<lparr>exit_status = 1, artifact = None,
           printed = token_warning (env w) @
                     [Error ''This script requires Node 18+ (global fetch).'']\<rparr>
     else
       let s = fetched w;
           ds = dates (clock w) (DAYS (env w)) (aggregated s);
           wks = weeks (clock w) (DAYS (env w));
           svg = svg_document (cell (env w)) (gap (env w)) wks ds
       in \<lparr>exit_status = (case exitCode s of None \<Rightarrow> 0 | Some c \<Rightarrow> c),
           artifact = Some svg,
           printed = console s @
                     [Log (''combined-graph.svg written (days: '' @ show_int (int (length ds)) @
                           '' weeks: '' @ show_int wks @ '' )'')]\<rparr>)"

subsection \<open>Notions of the specification\<close>

text \<open>What an account returned: the day records of its fetch, none when the fetch failed.\<close>

definition returned :: "world \<Rightarrow> string \<Rightarrow> day list" where
  "returned w user = (case doFetch w user of Inl _ \<Rightarrow> [] | Inr days \<Rightarrow> days)"

text \<open>The count of one date in a list of day records: the sum over the records of that
  date.\<close>

definition date_total :: "day list \<Rightarrow> string \<Rightarrow> nat" where
  "date_total days k = sum_list (map day_count (filter (\<lambda>d. day_date d = k) days))"

text \<open>\<^verbatim>\<open>parts.join(',')\<close>, the inverse of splitting at commas.\<close>

fun join :: "char \<Rightarrow> string list \<Rightarrow> string" where
  "join c [] = []"
| "join c [w] = w"
| "join c (w # ws) = w @ c # join c ws"

subsection \<open>A sample run\<close>

text \<open>
  Two accounts on Monday 2024-01-01, a window of one day: account \<open>A\<close> reports three
  contributions on 2024-01-01, account \<open>B\<close> two on 2024-01-01 and one on 2024-01-02; any
  other login is unknown to the remote endpoint.
\<close>

definition sample_env :: environment where
  "sample_env =
    \<lparr>GH_PAT = None, GH_TOKEN = Some ''t0ken'', GITHUB_TOKEN = None,
     USERNAMES_var = Some ''A, B'', DAYS_var = Some 1, CELL_SIZE_var = None, GAP_var = None\<rparr>"

definition sample_remote :: "request \<Rightarrow> reply" where
  "sample_remote q =
    (if var_login q = ''A''
     then Calendar (Some [[\<lparr>cd_date = ''2024-01-01'', contributionCount = 3\<rparr>]])
     else if var_login q = ''B''
     then Calendar (Some [[\<lparr>cd_date = ''2024-01-01'', contributionCount = 2\<rparr>,
                           \<lparr>cd_date = ''2024-01-02'', contributionCount = 1\<rparr>]])
     else GraphQLErrors ''[NOT_FOUND]'')"

definition sample_world :: world where
  "sample_world =
    \<lparr>env = sample_env, clock = 1704067200123, fetch_defined = True, remote = sample_remote\<rparr>"

text \<open>The same run with an account in the middle that the remote endpoint does not know,
  with unknown accounts only, and against an endpoint that differs on the logins that
  are not asked for.\<close>

definition partial_world :: world where
  "partial_world = sample_world\<lparr>env := sample_env\<lparr>USERNAMES_var := Some ''A, nobody, B''\<rparr>\<rparr>"

definition failed_world :: world where
  "failed_world = sample_world\<lparr>env := sample_env\<lparr>USERNAMES_var := Some ''nobody,ghost''\<rparr>\<rparr>"

definition other_world :: world where
  "other_world =
    sample_world\<lparr>remote := (\<lambda>q. if var_login q = ''A'' \<or> var_login q = ''B''
                                 then sample_remote q else Thrown ''offline'')\<rparr>"

section \<open>Properties\<close>

subsection \<open>Calendar arithmetic\<close>

text \<open>The calendar on three known days: the epoch, a leap day, and the Monday of the sample
  run.\<close>

lemma toISOString_samples:
  "toISOString 0 = ''1970-01-01T00:00:00.000Z''"
  "toISOString 1709164800123 = ''2024-02-29T00:00:00.123Z''"
  "take 10 (toISOString 1704067200123) = ''2024-01-01''"
  "getUTCDate 1709164800123 = 29"
  "getUTCDay 1704067200123 = 1"
  by code_simp+

lemma oneDay_pos: "0 < oneDay"
  by (simp add: oneDay_def)

lemma setUTCDate_plus: "setUTCDate t (getUTCDate t + k) = t + k * oneDay"
proof -
  have "setUTCDate t (getUTCDate t + k) = (t div oneDay + k) * oneDay + t mod oneDay"
    by (simp add: setUTCDate_def)
  also have "\<dots> = t div oneDay * oneDay + t mod oneDay + k * oneDay"
    by (simp add: algebra_simps)
  finally show ?thesis by (simp only: div_mult_mod_eq)
qed

lemma setUTCDate_minus: "setUTCDate t (getUTCDate t - k) = t - k * oneDay"
  using setUTCDate_plus[of t "- k"] by simp

lemma today_day: "today now = (now div oneDay) * oneDay"
  unfolding today_def setUTCHours0_def by (simp add: minus_mod_eq_div_mult)

lemma div_mult_oneDay: "(n * oneDay) div oneDay = n"
  using oneDay_pos by simp

lemma getUTCDay_mult: "getUTCDay (n * oneDay) = (n + 4) mod 7"
  by (simp add: getUTCDay_def div_mult_oneDay)

lemma fromDate_day: "fromDate now D = (now div oneDay - (D - 1)) * oneDay"
  unfolding fromDate_def Let_def setUTCDate_minus today_day by (simp add: algebra_simps)

lemma toDate_day: "toDate now = (now div oneDay) * oneDay"
  by (simp add: toDate_def today_day)

lemma start_day:
  "start now D = (now div oneDay - (D - 1) - (now div oneDay - (D - 1) + 4) mod 7) * oneDay"
  unfolding start_def Let_def setUTCDate_minus fromDate_day getUTCDay_mult
  by (simp add: algebra_simps)

lemma end_day:
  "end' now = (now div oneDay + (6 - (now div oneDay + 4) mod 7)) * oneDay"
  unfolding end'_def Let_def setUTCDate_plus toDate_day getUTCDay_mult
  by (simp add: algebra_simps)

lemma js_round_of_int: "js_round (of_int n) = n"
  unfolding js_round_def by (rule floor_unique) simp_all

lemma quotient_days: "(of_int (a * oneDay - b * oneDay) :: rat) / of_int oneDay = of_int (a - b)"
  using oneDay_pos by (simp add: field_simps)

lemma totalDays_eq:
  "totalDays now D = D + (now div oneDay - (D - 1) + 4) mod 7 + (6 - (now div oneDay + 4) mod 7)"
  unfolding totalDays_def start_day end_day quotient_days js_round_of_int by simp

lemma seven_le:
  fixes t k x y D :: int
  assumes "t = 7 * k" "t = D + x + (6 - y)" "0 \<le> x" "y < 7" "1 \<le> D"
  shows "7 \<le> t"
proof -
  have "1 \<le> t" using assms by linarith
  then have "0 < k" using assms(1) by linarith
  then show ?thesis using assms(1) by linarith
qed

lemma week_arith:
  fixes n D :: int
  shows "7 dvd D + (n - (D - 1) + 4) mod 7 + (6 - (n + 4) mod 7)"
    and "1 \<le> D \<Longrightarrow> 7 \<le> D + (n - (D - 1) + 4) mod 7 + (6 - (n + 4) mod 7)"
proof -
  let ?t = "D + (n - (D - 1) + 4) mod 7 + (6 - (n + 4) mod 7)"
  have eq: "?t = 7 * (1 - (n - (D - 1) + 4) div 7 + (n + 4) div 7)"
    unfolding minus_mult_div_eq_mod[symmetric] by (simp add: algebra_simps)
  show "7 dvd ?t" unfolding eq by simp
  have "0 \<le> (n - (D - 1) + 4) mod 7" "(n + 4) mod 7 < 7" by simp_all
  then show "7 \<le> ?t" if "1 \<le> D" using that by (rule seven_le[OF eq refl])
qed

lemma totalDays_dvd: "7 dvd totalDays now D"
  unfolding totalDays_eq by (rule week_arith)

lemma totalDays_ge: "1 \<le> D \<Longrightarrow> 7 \<le> totalDays now D"
  unfolding totalDays_eq by (rule week_arith)

lemma weeks_eq: "weeks now D = totalDays now D div 7"
proof -
  obtain k where k: "totalDays now D = 7 * k" using totalDays_dvd by (auto simp: dvd_def)
  show ?thesis by (simp add: weeks_def js_ceil_def k)
qed

lemma totalDays_weeks: "totalDays now D = 7 * weeks now D"
  using totalDays_dvd[of now D] by (simp add: weeks_eq)

lemma sunday_arith:
  fixes m i :: int
  shows "(m - (m + 4) mod 7 + i + 4) mod 7 = i mod 7"
proof -
  have "m - (m + 4) mod 7 + i + 4 = i + 7 * ((m + 4) div 7)"
    unfolding minus_mult_div_eq_mod[symmetric] by (simp add: algebra_simps)
  then show ?thesis by (simp only: mod_mult_self2)
qed

lemma getUTCDay_start_plus: "getUTCDay (start now D + i * oneDay) = i mod 7"
proof -
  have "start now D + i * oneDay =
        (now div oneDay - (D - 1) - (now div oneDay - (D - 1) + 4) mod 7 + i) * oneDay"
    unfolding start_day by (simp add: algebra_simps)
  then show ?thesis
    by (simp only: getUTCDay_mult sunday_arith)
qed

lemma getUTCDay_start: "getUTCDay (start now D) = 0"
  using getUTCDay_start_plus[of now D 0] by simp

lemma saturday_arith:
  fixes n :: int
  shows "(n + (6 - (n + 4) mod 7) + 4) mod 7 = 6"
proof -
  have "n + (6 - (n + 4) mod 7) + 4 = 6 + 7 * ((n + 4) div 7)"
    unfolding minus_mult_div_eq_mod[symmetric] by (simp add: algebra_simps)
  then show ?thesis by (simp only: mod_mult_self2) simp
qed

lemma getUTCDay_end: "getUTCDay (end' now) = 6"
  unfolding end_day getUTCDay_mult by (rule saturday_arith)

lemma length_dates: "length (dates now D agg) = nat (totalDays now D)"
  by (simp add: dates_def)

lemma entry_date_dates:
  "i < length (dates now D agg) \<Longrightarrow> entry_date (dates now D agg ! i) = start now D + int i * oneDay"
  by (simp add: dates_def date_entry_def Let_def)

lemma map_entry_date_dates:
  "map entry_date (dates now D agg) = map (\<lambda>i. start now D + int i * oneDay) [0..<nat (totalDays now D)]"
  by (simp add: dates_def date_entry_def Let_def comp_def)

lemma span_days: "(end' now - start now D) div oneDay + 1 = totalDays now D"
proof -
  have "end' now - start now D =
        (now div oneDay + (6 - (now div oneDay + 4) mod 7)
         - (now div oneDay - (D - 1) - (now div oneDay - (D - 1) + 4) mod 7)) * oneDay"
    unfolding start_day end_day by (simp add: algebra_simps)
  then show ?thesis
    unfolding totalDays_eq by (simp only: div_mult_oneDay)
qed

lemma weekday_days:
  "0 \<le> getUTCDay t * oneDay \<and> getUTCDay t * oneDay < 7 * oneDay
   \<and> 0 < (7 - getUTCDay t) * oneDay \<and> (6 - getUTCDay t) * oneDay < 7 * oneDay
   \<and> 0 \<le> (6 - getUTCDay t) * oneDay"
proof -
  have r: "0 \<le> getUTCDay t \<and> getUTCDay t < 7"
    by (simp add: getUTCDay_def)
  then have "0 \<le> getUTCDay t * oneDay" "0 \<le> (6 - getUTCDay t) * oneDay"
    using oneDay_pos by simp_all
  moreover have "getUTCDay t * oneDay < 7 * oneDay" "(6 - getUTCDay t) * oneDay < 7 * oneDay"
    using r oneDay_pos by (simp_all add: mult_strict_right_mono)
  moreover have "0 < (7 - getUTCDay t) * oneDay"
    using r oneDay_pos by simp
  ultimately show ?thesis by blast
qed

lemma start_le_from: "start now D \<le> fromDate now D \<and> fromDate now D - start now D < 7 * oneDay"
  using weekday_days[of "fromDate now D"] by (simp add: start_def Let_def setUTCDate_minus)

lemma to_le_end: "toDate now \<le> end' now \<and> end' now - toDate now < 7 * oneDay"
  using weekday_days[of "toDate now"] by (simp add: end'_def Let_def setUTCDate_plus)

lemma end_from_start: "start now D + (totalDays now D - 1) * oneDay = end' now"
proof -
  have "totalDays now D - 1 = (end' now - start now D) div oneDay" using span_days[of now D] by simp
  moreover have "oneDay dvd end' now - start now D" unfolding start_day end_day by (simp add: dvd_diff)
  ultimately show ?thesis by simp
qed

lemma wednesday_arith:
  fixes n :: int
  assumes "(n + 4) mod 7 = 3"
  shows "(n - (365 - 1) + 4) mod 7 = 3"
proof -
  have "n - (365 - 1) + 4 = (n + 4) + 7 * (- 52)" by simp
  then show ?thesis using assms by (simp only: mod_mult_self2)
qed

lemma weeks_wednesday:
  assumes "getUTCDay (today now) = 3"
  shows "weeks now 365 = 53"
proof -
  have w: "(now div oneDay + 4) mod 7 = 3" using assms unfolding today_day getUTCDay_mult .
  then have "(now div oneDay - (365 - 1) + 4) mod 7 = 3" by (rule wednesday_arith)
  with w have "totalDays now 365 = 371" unfolding totalDays_eq by simp
  then show ?thesis by (simp add: weeks_eq)
qed

subsection \<open>The window calculator\<close>

text \<open>
  Claim C4. With \<open>D\<close> window days and the clock at \<open>now\<close>, the window is the inclusive
  range of UTC days that ends today and begins \<open>D - 1\<close> days earlier: \<open>to\<close> is today at UTC
  midnight (the start of the UTC day that holds \<open>now\<close>), \<open>from\<close> is \<open>to\<close> less \<open>D - 1\<close> whole
  days, again at UTC midnight, so the range has \<open>D\<close> days. Both are functions of \<open>now\<close> and
  \<open>D\<close> alone.
\<close>

theorem window_range:
  "toDate now = today now
   \<and> fromDate now D = today now - (D - 1) * oneDay
   \<and> today now mod oneDay = 0 \<and> today now \<le> now \<and> now < today now + oneDay
   \<and> toDate now div oneDay = now div oneDay
   \<and> fromDate now D div oneDay = now div oneDay - (D - 1)
   \<and> fromDate now D mod oneDay = 0
   \<and> (toDate now - fromDate now D) div oneDay + 1 = D"
proof -
  have "toDate now = today now" by (simp add: toDate_def)
  moreover have "fromDate now D = today now - (D - 1) * oneDay"
    unfolding fromDate_def Let_def setUTCDate_minus ..
  moreover have "today now mod oneDay = 0" unfolding today_day by simp
  moreover have "today now \<le> now"
    using pos_mod_sign[OF oneDay_pos, of now] by (simp add: today_def setUTCHours0_def)
  moreover have "now < today now + oneDay"
    using pos_mod_bound[OF oneDay_pos, of now] by (simp add: today_def setUTCHours0_def)
  moreover have "toDate now div oneDay = now div oneDay"
    unfolding toDate_day by (rule div_mult_oneDay)
  moreover have "fromDate now D div oneDay = now div oneDay - (D - 1)"
    unfolding fromDate_day by (rule div_mult_oneDay)
  moreover have "fromDate now D mod oneDay = 0" unfolding fromDate_day by simp
  moreover have "(toDate now - fromDate now D) div oneDay + 1 = D"
  proof -
    have "toDate now - fromDate now D = (D - 1) * oneDay"
      unfolding toDate_day fromDate_day by (simp add: algebra_simps)
    then show ?thesis by (simp only: div_mult_oneDay)
  qed
  ultimately show ?thesis by (intro conjI)
qed

subsection \<open>The grid of whole weeks\<close>

text \<open>
  Claim C3. For a window of at least one day, the grid begins on the Sunday on or before
  \<open>from\<close> and ends on the Saturday on or after \<open>to\<close>, its cells are the days from the one
  to the other, and their number is seven times the ceiling of a seventh of the days of
  that span, which is seven times the number of weeks. For a window of 365 days that ends
  on a Wednesday, the grid has 53 or 54 weeks.
\<close>

theorem grid_whole_weeks:
  assumes "1 \<le> D"
  shows "getUTCDay (start now D) = 0 \<and> start now D mod oneDay = 0
     \<and> start now D \<le> fromDate now D \<and> fromDate now D - start now D < 7 * oneDay
     \<and> getUTCDay (end' now) = 6 \<and> end' now mod oneDay = 0
     \<and> toDate now \<le> end' now \<and> end' now - toDate now < 7 * oneDay
     \<and> map entry_date (dates now D agg) =
         map (\<lambda>i. start now D + int i * oneDay) [0..<length (dates now D agg)]
     \<and> start now D + (int (length (dates now D agg)) - 1) * oneDay = end' now
     \<and> int (length (dates now D agg)) =
         7 * \<lceil>(of_int ((end' now - start now D) div oneDay + 1) :: rat) / 7\<rceil>
     \<and> int (length (dates now D agg)) = 7 * weeks now D
     \<and> (D = 365 \<and> getUTCDay (today now) = 3 \<longrightarrow> weeks now D = 53 \<or> weeks now D = 54)"
proof -
  have len: "int (length (dates now D agg)) = totalDays now D"
    using totalDays_ge[OF assms, of now] by (simp add: length_dates)
  have e: "int (length (dates now D agg)) = 7 * weeks now D"
    unfolding len by (rule totalDays_weeks)
  have "getUTCDay (start now D) = 0" by (rule getUTCDay_start)
  moreover have "start now D mod oneDay = 0" unfolding start_day by simp
  moreover have "start now D \<le> fromDate now D"
    using start_le_from[of now D] by (rule conjunct1)
  moreover have "fromDate now D - start now D < 7 * oneDay"
    using start_le_from[of now D] by (rule conjunct2)
  moreover have "getUTCDay (end' now) = 6" by (rule getUTCDay_end)
  moreover have "end' now mod oneDay = 0" unfolding end_day by simp
  moreover have "toDate now \<le> end' now"
    using to_le_end[of now] by (rule conjunct1)
  moreover have "end' now - toDate now < 7 * oneDay"
    using to_le_end[of now] by (rule conjunct2)
  moreover have "map entry_date (dates now D agg) =
         map (\<lambda>i. start now D + int i * oneDay) [0..<length (dates now D agg)]"
    by (simp add: map_entry_date_dates length_dates)
  moreover have "start now D + (int (length (dates now D agg)) - 1) * oneDay = end' now"
    unfolding len by (rule end_from_start)
  moreover have "int (length (dates now D agg)) =
         7 * \<lceil>(of_int ((end' now - start now D) div oneDay + 1) :: rat) / 7\<rceil>"
    unfolding span_days using e by (simp add: weeks_def js_ceil_def)
  moreover note e
  moreover have "D = 365 \<and> getUTCDay (today now) = 3 \<longrightarrow> weeks now D = 53 \<or> weeks now D = 54"
    using weeks_wednesday by blast
  ultimately show ?thesis by (intro conjI)
qed

theorem grid_whole_weeks_witness:
  "(1::int) \<le> 365 \<and> getUTCDay (today 1704240000123) = 3
   \<and> getUTCDay (start 1704240000123 365) = 0
   \<and> getUTCDay (end' 1704240000123) = 6
   \<and> int (length (dates 1704240000123 365 Map.empty)) = 7 * weeks 1704240000123 365
   \<and> (weeks 1704240000123 365 = 53 \<or> weeks 1704240000123 365 = 54)"
proof -
  have d: "(1::int) \<le> 365" by simp
  have w: "getUTCDay (today 1704240000123) = 3" by code_simp
  from grid_whole_weeks[OF d, of 1704240000123 Map.empty] d w show ?thesis by simp
qed

subsection \<open>Colour buckets\<close>

lemma length_colors: "length colors = 5"
  by (simp add: colors_def)

lemma colorQuotient_finite:
  "colorQuotient mx cnt = None \<or>
   (mx \<noteq> 0 \<and> colorQuotient mx cnt = Some (Finite (of_nat cnt / of_nat mx)))"
  by (simp add: colorQuotient_def js_divide_def)

lemma js_divide_finite: "(\<exists>r. js_divide a b = Finite r) = (b \<noteq> 0)"
  by (simp add: js_divide_def)

lemma floor_min_int: "\<lfloor>min (of_int c :: rat) (of_nat k)\<rfloor> = min c (int k)"
proof -
  have "min (of_int c :: rat) (of_nat k) = of_int (min c (int k))"
    by (simp add: min_def)
  then show ?thesis by (simp only: floor_of_int)
qed

lemma nat_min_int: "nat (min c (int k)) = min (nat c) k"
  by (cases "c \<le> int k") (simp_all add: min_def nat_le_iff le_nat_iff)

lemma index_of_level: "nat \<lfloor>min (of_int c :: rat) (of_nat k)\<rfloor> = min (nat c) k"
  by (simp only: floor_min_int nat_min_int)

lemma colorIndex_eq:
  "colorIndex mx cnt =
    (if cnt = 0 then 0
     else if mx = 0 then 0
     else min (nat (js_ceil (of_nat cnt / of_nat mx * 4))) 4)"
proof (cases "cnt = 0 \<or> mx = 0")
  case True
  then show ?thesis by (auto simp: colorIndex_def colorQuotient_def)
next
  case False
  then have q: "colorQuotient mx cnt = Some (Finite (of_nat cnt / of_nat mx))"
    by (simp add: colorQuotient_def js_divide_def)
  have "colorIndex mx cnt =
        nat \<lfloor>min (of_int (js_ceil (of_nat cnt / of_nat mx * of_nat (length colors - 1))) :: rat)
                  (of_nat (length colors - 1))\<rfloor>"
    unfolding colorIndex_def q by (simp add: js_times_def Math_ceil_def Math_min_def Let_def)
  also have "\<dots> = min (nat (js_ceil (of_nat cnt / of_nat mx * of_nat (length colors - 1))))
                      (length colors - 1)"
    by (rule index_of_level)
  finally show ?thesis using False by (simp add: length_colors)
qed

lemma level_mono:
  fixes c1 c2 mx :: nat
  assumes "c1 \<le> c2"
  shows "js_ceil (of_nat c1 / of_nat mx * 4) \<le> js_ceil (of_nat c2 / of_nat mx * 4)"
  unfolding js_ceil_def using assms
  by (intro ceiling_mono mult_right_mono divide_right_mono) simp_all

lemma level_pos:
  fixes c mx :: nat
  assumes "0 < c" "0 < mx"
  shows "1 \<le> js_ceil (of_nat c / of_nat mx * 4)"
proof -
  have "(0::rat) < of_nat c / of_nat mx * 4" using assms by simp
  then have "0 < \<lceil>(of_nat c / of_nat mx * 4 :: rat)\<rceil>" by (simp only: zero_less_ceiling)
  then show ?thesis by (simp add: js_ceil_def)
qed

lemma colorIndex_closed:
  "colorIndex mx cnt =
    (if cnt = 0 \<or> mx = 0 then 0
     else max 1 (min 4 (nat \<lceil>(of_nat cnt / of_nat mx :: rat) * 4\<rceil>)))"
proof (cases "cnt = 0 \<or> mx = 0")
  case True
  then show ?thesis by (auto simp: colorIndex_eq)
next
  case False
  define l where "l = nat \<lceil>(of_nat cnt / of_nat mx :: rat) * 4\<rceil>"
  have "1 \<le> js_ceil (of_nat cnt / of_nat mx * 4)" using False level_pos[of cnt mx] by simp
  then have l: "1 \<le> l" unfolding l_def js_ceil_def by linarith
  have "colorIndex mx cnt = min l 4"
    using False unfolding colorIndex_eq l_def js_ceil_def by simp
  also have "\<dots> = max 1 (min 4 l)" using l by simp
  finally show ?thesis using False unfolding l_def by simp
qed

lemma colorIndex_less: "colorIndex mx cnt < 5"
  by (simp add: colorIndex_eq min_less_iff_disj)

lemma colorIndex_zero_max: "colorIndex 0 cnt = 0"
  by (simp add: colorIndex_eq)

lemma colorIndex_mono:
  assumes "c1 \<le> c2" "c2 \<le> mx"
  shows "colorIndex mx c1 \<le> colorIndex mx c2"
proof (cases "c1 = 0")
  case True
  then show ?thesis by (simp add: colorIndex_eq)
next
  case False
  then have pos: "c2 \<noteq> 0" "mx \<noteq> 0" using assms by simp_all
  have "nat (js_ceil (of_nat c1 / of_nat mx * 4)) \<le> nat (js_ceil (of_nat c2 / of_nat mx * 4))"
    using level_mono[OF assms(1), of mx] by (rule nat_mono)
  then show ?thesis
    using False pos by (simp add: colorIndex_eq min.coboundedI1)
qed

lemma colorIndex_top: "cnt \<noteq> 0 \<Longrightarrow> colorIndex cnt cnt = 4"
  by (simp add: colorIndex_eq js_ceil_def)

lemma colorFor_colors: "colorFor mx cnt = colors ! colorIndex mx cnt"
  using colorIndex_less[of mx cnt] by (simp add: colorFor_def Let_def length_colors)

lemma length_cell_rects: "length (cell_rects c g ds) = length ds"
  by (simp add: cell_rects_def)

lemma nth_cell_rects:
  "i < length ds \<Longrightarrow> cell_rects c g ds ! i = cell_rect c g (max_count ds) i (ds ! i)"
  by (simp add: cell_rects_def)

lemma rect_fill_cell_rect: "rect_fill (cell_rect c g mx i e) = colors ! colorIndex mx (entry_count e)"
  by (simp add: cell_rect_def Let_def colorFor_colors)

lemma max_count_Max: "max_count ds = Max (insert 0 (entry_count ` set ds))"
proof -
  have "fold max (map entry_count ds) 0 = Max (set (0 # map entry_count ds))"
    by (rule Max.set_eq_fold[symmetric])
  then show ?thesis by (simp add: max_count_def)
qed

lemma entry_count_le_max: "e \<in> set ds \<Longrightarrow> entry_count e \<le> max_count ds"
  unfolding max_count_Max by (rule Max_ge) simp_all

lemma colorQuotient_None: "(colorQuotient mx cnt = None) = (cnt = 0 \<or> mx = 0)"
  by (simp add: colorQuotient_def)

lemma colorQuotient_grid:
  assumes "e \<in> set ds" "colorQuotient (max_count ds) (entry_count e) = Some q"
  shows "\<exists>r. q = Finite r \<and> 0 < r \<and> r \<le> 1"
proof -
  have nz: "entry_count e \<noteq> 0" "max_count ds \<noteq> 0"
    using assms(2) colorQuotient_None[of "max_count ds" "entry_count e"] by auto
  then have q: "q = Finite (of_nat (entry_count e) / of_nat (max_count ds))"
    using assms(2) by (simp add: colorQuotient_def js_divide_def)
  have "(of_nat (entry_count e) :: rat) \<le> of_nat (max_count ds)"
    using entry_count_le_max[OF assms(1)] by simp
  then have "(of_nat (entry_count e) / of_nat (max_count ds) :: rat) \<le> 1"
    using nz by (simp add: divide_le_eq_1)
  moreover have "(0::rat) < of_nat (entry_count e) / of_nat (max_count ds)"
    using nz by simp
  ultimately show ?thesis using q by blast
qed

text \<open>
  Claim C2. The colour of a cell is bucket 0 when its count is 0 or the maximum of the grid
  is 0, and otherwise the ceiling of \<open>count / max \<times> 4\<close> clamped to the range from 1 to 4,
  one of five levels; every cell of the image is filled with the colour of its bucket.
  The maximum of the grid is the largest count among its cells, 0 when there is none, so
  no cell has a count above it and a cell that holds it, when it is not 0, is in bucket 4.
  With a maximum of 0 every cell is in bucket 0. No division by zero occurs:
  \<^verbatim>\<open>colorFor\<close> takes its quotient only when neither the count nor the maximum is 0, the
  quotient it takes is the finite \<open>count / max\<close>, never \<^verbatim>\<open>Infinity\<close> or \<^verbatim>\<open>NaN\<close>, which are
  what a division gives exactly when the divisor is 0; for a cell of the grid the quotient
  lies above 0 and not above 1.
\<close>

theorem color_bucket:
  "colorIndex mx cnt =
     (if cnt = 0 \<or> mx = 0 then 0
      else max 1 (min 4 (nat \<lceil>(of_nat cnt / of_nat mx :: rat) * 4\<rceil>)))
   \<and> colorFor mx cnt = colors ! colorIndex mx cnt
   \<and> length colors = 5 \<and> colorIndex mx cnt < 5
   \<and> colorIndex 0 cnt = 0
   \<and> (\<forall>i < length ds.
         rect_fill (cell_rects c g ds ! i) = colors ! colorIndex (max_count ds) (entry_count (ds ! i)))
   \<and> (max_count ds = 0 \<longrightarrow>
         (\<forall>i < length ds.
            colorIndex (max_count ds) (entry_count (ds ! i)) = 0
            \<and> rect_fill (cell_rects c g ds ! i) = colors ! 0))
   \<and> max_count ds = Max (insert 0 (entry_count ` set ds))
   \<and> (\<forall>e \<in> set ds. entry_count e \<le> max_count ds)
   \<and> (\<forall>i < length ds.
         rect_fill (cell_rects c g ds ! i) =
         colors !
           (if entry_count (ds ! i) = 0 \<or> Max (insert 0 (entry_count ` set ds)) = 0 then 0
            else max 1 (min 4 (nat \<lceil>(of_nat (entry_count (ds ! i)) /
                                       of_nat (Max (insert 0 (entry_count ` set ds))) :: rat) * 4\<rceil>))))
   \<and> (\<forall>i < length ds.
         entry_count (ds ! i) \<noteq> 0 \<and> entry_count (ds ! i) = max_count ds \<longrightarrow>
         rect_fill (cell_rects c g ds ! i) = colors ! 4)
   \<and> (colorQuotient mx cnt = None) = (cnt = 0 \<or> mx = 0)
   \<and> (colorQuotient mx cnt = None \<or>
        (mx \<noteq> 0 \<and> colorQuotient mx cnt = Some (Finite (of_nat cnt / of_nat mx))))
   \<and> colorQuotient mx cnt \<noteq> Some Infinity \<and> colorQuotient mx cnt \<noteq> Some NaN
   \<and> (\<exists>r. js_divide a b = Finite r) = (b \<noteq> 0)
   \<and> (\<forall>e \<in> set ds. \<forall>q. colorQuotient (max_count ds) (entry_count e) = Some q \<longrightarrow>
         (\<exists>r. q = Finite r \<and> 0 < r \<and> r \<le> 1))"
proof -
  have fill: "\<forall>i < length ds.
         rect_fill (cell_rects c g ds ! i) = colors ! colorIndex (max_count ds) (entry_count (ds ! i))"
    by (simp add: nth_cell_rects rect_fill_cell_rect)
  have zero: "max_count ds = 0 \<longrightarrow>
         (\<forall>i < length ds.
            colorIndex (max_count ds) (entry_count (ds ! i)) = 0
            \<and> rect_fill (cell_rects c g ds ! i) = colors ! 0)"
    using fill by (simp add: colorIndex_zero_max)
  have le: "\<forall>e \<in> set ds. entry_count e \<le> max_count ds"
    using entry_count_le_max by blast
  have spec: "\<forall>i < length ds.
         rect_fill (cell_rects c g ds ! i) =
         colors !
           (if entry_count (ds ! i) = 0 \<or> Max (insert 0 (entry_count ` set ds)) = 0 then 0
            else max 1 (min 4 (nat \<lceil>(of_nat (entry_count (ds ! i)) /
                                       of_nat (Max (insert 0 (entry_count ` set ds))) :: rat) * 4\<rceil>)))"
    using fill unfolding max_count_Max[symmetric] colorIndex_closed[symmetric] .
  have top: "\<forall>i < length ds.
         entry_count (ds ! i) \<noteq> 0 \<and> entry_count (ds ! i) = max_count ds \<longrightarrow>
         rect_fill (cell_rects c g ds ! i) = colors ! 4"
  proof (intro allI impI)
    fix i
    assume i: "i < length ds"
      and m: "entry_count (ds ! i) \<noteq> 0 \<and> entry_count (ds ! i) = max_count ds"
    have "colorIndex (max_count ds) (entry_count (ds ! i)) = 4"
      using m colorIndex_top[of "entry_count (ds ! i)"] by simp
    then show "rect_fill (cell_rects c g ds ! i) = colors ! 4"
      using fill i by simp
  qed
  have fin: "colorQuotient mx cnt = None \<or>
        (mx \<noteq> 0 \<and> colorQuotient mx cnt = Some (Finite (of_nat cnt / of_nat mx)))"
    by (rule colorQuotient_finite)
  have inf: "colorQuotient mx cnt \<noteq> Some Infinity" "colorQuotient mx cnt \<noteq> Some NaN"
    using fin by auto
  have grid: "\<forall>e \<in> set ds. \<forall>q. colorQuotient (max_count ds) (entry_count e) = Some q \<longrightarrow>
         (\<exists>r. q = Finite r \<and> 0 < r \<and> r \<le> 1)"
    using colorQuotient_grid by blast
  note colorIndex_closed[of mx cnt] colorFor_colors[of mx cnt] length_colors
    colorIndex_less[of mx cnt] colorIndex_zero_max[of cnt] fill zero max_count_Max[of ds] le
    spec top colorQuotient_None[of mx cnt] fin inf js_divide_finite[of a b] grid
  then show ?thesis by (intro conjI)
qed

theorem color_bucket_witness:
  "(2::nat) < length (dates 1704067200123 1 (aggregated (fetched sample_world)))
   \<and> map entry_count (dates 1704067200123 1 (aggregated (fetched sample_world))) =
      [0, 5, 1, 0, 0, 0, 0]
   \<and> max_count (dates 1704067200123 1 (aggregated (fetched sample_world))) = 5
   \<and> rect_fill (cell_rects 12 3 (dates 1704067200123 1 (aggregated (fetched sample_world))) ! 0) =
      ''#ebedf0''
   \<and> rect_fill (cell_rects 12 3 (dates 1704067200123 1 (aggregated (fetched sample_world))) ! 1) =
      ''#216e39''
   \<and> rect_fill (cell_rects 12 3 (dates 1704067200123 1 (aggregated (fetched sample_world))) ! 2) =
      ''#9be9a8''
   \<and> colorQuotient 5 1 = Some (Finite (1 / 5))
   \<and> (1::nat) < length (dates 1704067200123 1 Map.empty)
   \<and> max_count (dates 1704067200123 1 Map.empty) = 0
   \<and> rect_fill (cell_rects 12 3 (dates 1704067200123 1 Map.empty) ! 1) = colors ! 0
   \<and> colorQuotient 0 5 = None \<and> colorIndex 0 5 = 0"
proof -
  let ?ds = "dates 1704067200123 1 (aggregated (fetched sample_world))"
  let ?zs = "dates 1704067200123 1 Map.empty"
  note grid = color_bucket[of 5 1 ?ds 12 3 1 5]
  note none = color_bucket[of 0 5 ?zs 12 3 5 0]
  have l: "(2::nat) < length ?ds" "(1::nat) < length ?ds" "(0::nat) < length ?ds" by code_simp+
  have cs: "map entry_count ?ds = [0, 5, 1, 0, 0, 0, 0]" by code_simp
  have m: "max_count ?ds = 5" by code_simp
  have e: "entry_count (?ds ! 0) = 0" "entry_count (?ds ! 1) = 5" "entry_count (?ds ! 2) = 1"
    by code_simp+
  have v: "colors ! colorIndex 5 0 = ''#ebedf0''" "colors ! colorIndex 5 5 = ''#216e39''"
    "colors ! colorIndex 5 1 = ''#9be9a8''"
    by code_simp+
  note f = grid[THEN conjunct2, THEN conjunct2, THEN conjunct2, THEN conjunct2, THEN conjunct2, THEN conjunct1]
  have f0: "rect_fill (cell_rects 12 3 ?ds ! 0) = ''#ebedf0''"
    using f[rule_format, OF l(3)] by (simp only: m e v)
  have f1: "rect_fill (cell_rects 12 3 ?ds ! 1) = ''#216e39''"
    using f[rule_format, OF l(2)] by (simp only: m e v)
  have f2: "rect_fill (cell_rects 12 3 ?ds ! 2) = ''#9be9a8''"
    using f[rule_format, OF l(1)] by (simp only: m e v)
  have q: "colorQuotient 5 1 = Some (Finite (1 / 5))"
    using grid[THEN conjunct2, THEN conjunct2, THEN conjunct2, THEN conjunct2, THEN conjunct2, THEN conjunct2, THEN conjunct2, THEN conjunct2, THEN conjunct2, THEN conjunct2, THEN conjunct2, THEN conjunct1]
      grid[THEN conjunct2, THEN conjunct2, THEN conjunct2, THEN conjunct2, THEN conjunct2, THEN conjunct2, THEN conjunct2, THEN conjunct2, THEN conjunct2, THEN conjunct2, THEN conjunct2, THEN conjunct2, THEN conjunct1]
    by auto
  have zl: "(1::nat) < length ?zs" by code_simp
  have zm: "max_count ?zs = 0" by code_simp
  note z = none[THEN conjunct2, THEN conjunct2, THEN conjunct2, THEN conjunct2, THEN conjunct2, THEN conjunct2, THEN conjunct1]
  have z1: "rect_fill (cell_rects 12 3 ?zs ! 1) = colors ! 0"
    using z[rule_format, OF zm zl] by (rule conjunct2)
  have zq: "colorQuotient 0 5 = None"
    using none[THEN conjunct2, THEN conjunct2, THEN conjunct2, THEN conjunct2, THEN conjunct2, THEN conjunct2, THEN conjunct2, THEN conjunct2, THEN conjunct2, THEN conjunct2, THEN conjunct2, THEN conjunct1] by simp
  have zi: "colorIndex 0 5 = 0"
    by (rule none[THEN conjunct2, THEN conjunct2, THEN conjunct2, THEN conjunct2, THEN conjunct1])
  from l(1) cs m f0 f1 f2 q zl zm z1 zq zi show ?thesis by (intro conjI)
qed

text \<open>
  Claim C8. The colour bucket is monotone in the count: of two counts, neither above the
  maximum, the smaller one has the bucket that is not higher.
\<close>

theorem color_bucket_monotone:
  assumes "c1 < c2" "c2 \<le> mx"
  shows "colorIndex mx c1 \<le> colorIndex mx c2"
  using assms colorIndex_mono[of c1 c2 mx] by simp

theorem color_bucket_monotone_witness:
  "(1::nat) < 5 \<and> (5::nat) \<le> 5 \<and> colorIndex 5 1 \<le> colorIndex 5 5"
proof -
  have a: "(1::nat) < 5" and b: "(5::nat) \<le> 5" by simp_all
  from color_bucket_monotone[OF a b] a b show ?thesis by simp
qed

subsection \<open>Layout\<close>

text \<open>
  Claim C7. The cell at index \<open>i\<close> of the grid is drawn in week \<open>i div 7\<close> on weekday
  \<open>i mod 7\<close> (0 is Sunday): the weekday the renderer reads off the cell's date is \<open>i mod 7\<close>,
  as the grid begins on a Sunday. Its position is \<open>x = leftPad + week \<times> (cell + gap)\<close> and
  \<open>y = topPad + weekday \<times> (cell + gap)\<close>, with \<open>leftPad = 20\<close>, \<open>topPad = 12\<close>, and its corner
  radius is 3.
\<close>

theorem cell_layout:
  assumes "i < length (dates now D agg)"
  shows "getUTCDay (entry_date (dates now D agg ! i)) = int (i mod 7)
     \<and> rect_x (cell_rects c g (dates now D agg) ! i) = leftPad + int (i div 7) * (c + g)
     \<and> rect_y (cell_rects c g (dates now D agg) ! i) = topPad + int (i mod 7) * (c + g)
     \<and> leftPad = 20 \<and> topPad = 12
     \<and> rect_rx (cell_rects c g (dates now D agg) ! i) = 3
     \<and> rect_ry (cell_rects c g (dates now D agg) ! i) = 3
     \<and> rect_width (cell_rects c g (dates now D agg) ! i) = c
     \<and> rect_height (cell_rects c g (dates now D agg) ! i) = c"
proof -
  have wd: "getUTCDay (entry_date (dates now D agg ! i)) = int (i mod 7)"
    using assms by (simp add: entry_date_dates getUTCDay_start_plus zmod_int)
  have r: "cell_rects c g (dates now D agg) ! i =
           cell_rect c g (max_count (dates now D agg)) i (dates now D agg ! i)"
    using assms by (rule nth_cell_rects)
  show ?thesis
    unfolding r by (simp add: cell_rect_def Let_def wd leftPad_def topPad_def)
qed

theorem cell_layout_witness:
  "(9::nat) < length (dates 1704067200123 8 Map.empty)
   \<and> getUTCDay (entry_date (dates 1704067200123 8 Map.empty ! 9)) = 2
   \<and> rect_x (cell_rects 12 3 (dates 1704067200123 8 Map.empty) ! 9) = 35
   \<and> rect_y (cell_rects 12 3 (dates 1704067200123 8 Map.empty) ! 9) = 42
   \<and> rect_rx (cell_rects 12 3 (dates 1704067200123 8 Map.empty) ! 9) = 3"
proof -
  have l: "(9::nat) < length (dates 1704067200123 8 Map.empty)" by code_simp
  from cell_layout[OF l, of 12 3] l show ?thesis by (simp add: leftPad_def topPad_def)
qed

subsection \<open>Aggregation\<close>

lemma add_days_append: "add_days (xs @ ys) a = add_days ys (add_days xs a)"
  by (induction xs arbitrary: a) simp_all

lemma date_total_Cons:
  "date_total (d # ds) k = (if day_date d = k then day_count d else 0) + date_total ds k"
  by (simp add: date_total_def)

lemma date_total_absent: "k \<notin> day_date ` set ds \<Longrightarrow> date_total ds k = 0"
  by (induction ds) (auto simp: date_total_Cons date_total_def)

lemma add_days_lookup:
  "add_days ds a k =
    (if k \<in> day_date ` set ds
     then Some ((case a k of None \<Rightarrow> 0 | Some c \<Rightarrow> c) + date_total ds k)
     else a k)"
proof (induction ds arbitrary: a)
  case Nil
  then show ?case by simp
next
  case (Cons d ds)
  show ?case
  proof (cases "day_date d = k")
    case True
    then show ?thesis
      by (simp add: Cons.IH date_total_Cons date_total_absent)
  next
    case False
    then show ?thesis
      by (simp add: Cons.IH date_total_Cons)
  qed
qed

lemma date_total_concat:
  "date_total (concat xss) k = sum_list (map (\<lambda>xs. date_total xs k) xss)"
  by (induction xss) (simp_all add: date_total_def)

lemma aggregated_fetch_user:
  "aggregated (fetch_user w u s) = add_days (returned w u) (aggregated s)"
  by (simp add: fetch_user_def returned_def Let_def split: sum.splits)

lemma aggregated_fetch_loop:
  "aggregated (fetch_loop w us s) = add_days (concat (map (returned w) us)) (aggregated s)"
  by (induction us arbitrary: s) (simp_all add: aggregated_fetch_user add_days_append)

lemma sum_list_filter_nonzero:
  fixes f :: "'a \<Rightarrow> nat"
  assumes "\<And>x. x \<in> set xs \<Longrightarrow> \<not> P x \<Longrightarrow> f x = 0"
  shows "sum_list (map f (filter P xs)) = sum_list (map f xs)"
  using assms by (induction xs) auto

lemma aggregated_lookup:
  "aggregated (fetch_loop w us s) k =
    (if \<exists>u \<in> set us. k \<in> day_date ` set (returned w u)
     then Some ((case aggregated s k of None \<Rightarrow> 0 | Some c \<Rightarrow> c) +
                (\<Sum>u \<leftarrow> filter (\<lambda>u. k \<in> day_date ` set (returned w u)) us.
                   date_total (returned w u) k))
     else aggregated s k)"
proof -
  have "(\<Sum>u \<leftarrow> filter (\<lambda>u. k \<in> day_date ` set (returned w u)) us. date_total (returned w u) k)
        = (\<Sum>u \<leftarrow> us. date_total (returned w u) k)"
    by (rule sum_list_filter_nonzero) (simp add: date_total_absent)
  moreover have "k \<in> day_date ` set (concat (map (returned w) us))
        \<longleftrightarrow> (\<exists>u \<in> set us. k \<in> day_date ` set (returned w u))"
    by auto
  ultimately show ?thesis
    unfolding aggregated_fetch_loop add_days_lookup date_total_concat
    by (simp add: comp_def)
qed

lemma aggregated_permute:
  assumes "mset us = mset us'"
  shows "aggregated (fetch_loop w us s) = aggregated (fetch_loop w us' s)"
proof
  fix k
  have set_eq: "set us = set us'" using assms by (rule mset_eq_setD)
  have "(\<Sum>u \<leftarrow> us. date_total (returned w u) k) = (\<Sum>u \<leftarrow> us'. date_total (returned w u) k)"
  proof -
    have "mset (map (\<lambda>u. date_total (returned w u) k) us) = mset (map (\<lambda>u. date_total (returned w u) k) us')"
      using assms by (metis mset_map)
    then show ?thesis by (metis sum_mset_sum_list)
  qed
  moreover have "k \<in> day_date ` set (concat (map (returned w) us))
        \<longleftrightarrow> k \<in> day_date ` set (concat (map (returned w) us'))"
    using set_eq by auto
  ultimately show "aggregated (fetch_loop w us s) k = aggregated (fetch_loop w us' s) k"
    unfolding aggregated_fetch_loop add_days_lookup date_total_concat
    by (simp add: comp_def)
qed

lemma aggregated_fetched:
  "aggregated (fetched w) = add_days (concat (map (returned w) (USERNAMES (env w)))) Map.empty"
  by (simp add: fetched_def aggregated_fetch_loop)

text \<open>
  Claim C1. For every date, the aggregated mapping holds the sum of the counts of that
  date over the accounts that returned it (and has no entry for a date that no account
  returned); the mapping does not depend on the order in which the accounts are fetched;
  and when one account reports three contributions on 2024-01-01 and another two on
  2024-01-01 and one on 2024-01-02, the mapping is 2024-01-01 to 5 and 2024-01-02 to 1.
\<close>

theorem aggregation_sums:
  "aggregated (fetched w) k =
     (if \<exists>u \<in> set (USERNAMES (env w)). k \<in> day_date ` set (returned w u)
      then Some (\<Sum>u \<leftarrow> filter (\<lambda>u. k \<in> day_date ` set (returned w u)) (USERNAMES (env w)).
                   date_total (returned w u) k)
      else None)
   \<and> (mset users = mset users' \<longrightarrow>
        aggregated (fetch_loop w users s) = aggregated (fetch_loop w users' s))
   \<and> (USERNAMES (env w) = [a, b]
        \<and> returned w a = [\<lparr>day_date = ''2024-01-01'', day_count = 3\<rparr>]
        \<and> returned w b = [\<lparr>day_date = ''2024-01-01'', day_count = 2\<rparr>,
                          \<lparr>day_date = ''2024-01-02'', day_count = 1\<rparr>]
      \<longrightarrow> aggregated (fetched w) = [''2024-01-01'' \<mapsto> 5, ''2024-01-02'' \<mapsto> 1])"
proof -
  have "aggregated (fetched w) k =
     (if \<exists>u \<in> set (USERNAMES (env w)). k \<in> day_date ` set (returned w u)
      then Some (\<Sum>u \<leftarrow> filter (\<lambda>u. k \<in> day_date ` set (returned w u)) (USERNAMES (env w)).
                   date_total (returned w u) k)
      else None)"
    unfolding fetched_def aggregated_lookup by simp
  moreover have "mset users = mset users' \<longrightarrow>
        aggregated (fetch_loop w users s) = aggregated (fetch_loop w users' s)"
    using aggregated_permute by blast
  moreover have "USERNAMES (env w) = [a, b]
        \<and> returned w a = [\<lparr>day_date = ''2024-01-01'', day_count = 3\<rparr>]
        \<and> returned w b = [\<lparr>day_date = ''2024-01-01'', day_count = 2\<rparr>,
                          \<lparr>day_date = ''2024-01-02'', day_count = 1\<rparr>]
      \<longrightarrow> aggregated (fetched w) = [''2024-01-01'' \<mapsto> 5, ''2024-01-02'' \<mapsto> 1]"
    by (auto simp: aggregated_fetched fun_eq_iff)
  ultimately show ?thesis by (intro conjI)
qed

theorem aggregation_sums_witness:
  "USERNAMES (env sample_world) = [''A'', ''B'']
   \<and> returned sample_world ''A'' = [\<lparr>day_date = ''2024-01-01'', day_count = 3\<rparr>]
   \<and> returned sample_world ''B'' = [\<lparr>day_date = ''2024-01-01'', day_count = 2\<rparr>,
                                     \<lparr>day_date = ''2024-01-02'', day_count = 1\<rparr>]
   \<and> mset [''A'', ''B''] = mset [''B'', ''A'']
   \<and> aggregated (fetched sample_world) = [''2024-01-01'' \<mapsto> 5, ''2024-01-02'' \<mapsto> 1]
   \<and> aggregated (fetched sample_world) ''2024-01-01'' = Some 5
   \<and> aggregated (fetch_loop sample_world [''A'', ''B'']
                    \<lparr>aggregated = Map.empty, exitCode = None, console = []\<rparr>) =
      aggregated (fetch_loop sample_world [''B'', ''A'']
                    \<lparr>aggregated = Map.empty, exitCode = None, console = []\<rparr>)"
proof -
  have u: "USERNAMES (env sample_world) = [''A'', ''B'']" by code_simp
  have a: "returned sample_world ''A'' = [\<lparr>day_date = ''2024-01-01'', day_count = 3\<rparr>]"
    by code_simp
  have b: "returned sample_world ''B'' = [\<lparr>day_date = ''2024-01-01'', day_count = 2\<rparr>,
                                         \<lparr>day_date = ''2024-01-02'', day_count = 1\<rparr>]"
    by code_simp
  have p: "mset [''A'', ''B''] = mset [''B'', ''A'']" by simp
  from aggregation_sums[of sample_world "''2024-01-01''" "[''A'', ''B'']" "[''B'', ''A'']" "\<lparr>aggregated = Map.empty, exitCode = None, console = []\<rparr>" "''A''" "''B''"]
    u a b p show ?thesis by simp
qed

subsection \<open>Failed fetches\<close>

lemma exitCode_fetch_user:
  "exitCode (fetch_user w u s) = (if isl (doFetch w u) then Some 2 else exitCode s)"
  by (simp add: fetch_user_def Let_def split: sum.splits)

lemma exitCode_fetch_loop:
  "exitCode (fetch_loop w us s) = (if \<exists>u \<in> set us. isl (doFetch w u) then Some 2 else exitCode s)"
  by (induction us arbitrary: s) (auto simp: exitCode_fetch_user)

lemma log_lines_fetch_user:
  "filter is_Log (console (fetch_user w u s)) =
   filter is_Log (console s) @ [Log (''Fetching contributions for '' @ u)]"
  by (simp add: fetch_user_def Let_def split: sum.splits)

lemma log_lines_fetch_loop:
  "filter is_Log (console (fetch_loop w us s)) =
   filter is_Log (console s) @ map (\<lambda>u. Log (''Fetching contributions for '' @ u)) us"
  by (induction us arbitrary: s) (simp_all add: log_lines_fetch_user)

lemma log_lines_fetched:
  "filter is_Log (console (fetched w)) =
   map (\<lambda>u. Log (''Fetching contributions for '' @ u)) (USERNAMES (env w))"
  by (simp add: fetched_def log_lines_fetch_loop token_warning_def)

lemma returned_failed: "isl (doFetch w u) \<Longrightarrow> returned w u = []"
  by (cases "doFetch w u") (simp_all add: returned_def)

lemma concat_returned_successful:
  "concat (map (returned w) (filter (\<lambda>v. \<not> isl (doFetch w v)) us)) = concat (map (returned w) us)"
  by (induction us) (simp_all add: returned_failed)

lemma exit_status_main:
  "fetch_defined w \<Longrightarrow>
   exit_status (main w) = (if \<exists>u \<in> set (USERNAMES (env w)). isl (doFetch w u) then 2 else 0)"
  by (simp add: main_def Let_def fetched_def exitCode_fetch_loop)

lemma exit_status_main_fatal: "\<not> fetch_defined w \<Longrightarrow> exit_status (main w) = 1 \<and> artifact (main w) = None"
  by (simp add: main_def)

lemma artifact_main:
  "fetch_defined w \<Longrightarrow>
   artifact (main w) =
     Some (svg_document (cell (env w)) (gap (env w)) (weeks (clock w) (DAYS (env w)))
             (dates (clock w) (DAYS (env w)) (aggregated (fetched w))))"
  by (simp add: main_def Let_def)

lemma counted_day:
  assumes "d \<in> set ds"
  shows "\<exists>c. add_days ds a (day_date d) = Some c \<and> day_count d \<le> c"
proof -
  have "day_count d \<le> date_total ds (day_date d)"
    using assms by (induction ds) (auto simp: date_total_Cons)
  then show ?thesis using assms by (simp add: add_days_lookup trans_le_add2)
qed

lemma counted_account:
  assumes "v \<in> set us" "d \<in> set (returned w v)"
  shows "\<exists>c. aggregated (fetch_loop w us s) (day_date d) = Some c \<and> day_count d \<le> c"
proof -
  have "d \<in> set (concat (map (returned w) us))" using assms by auto
  then show ?thesis unfolding aggregated_fetch_loop by (rule counted_day)
qed

lemma aggregated_all_failed:
  assumes "\<forall>u \<in> set (USERNAMES (env w)). isl (doFetch w u)"
  shows "aggregated (fetched w) = Map.empty"
proof -
  have "concat (map (returned w) (USERNAMES (env w))) = []"
    using assms by (simp add: returned_failed)
  then show ?thesis by (simp only: aggregated_fetched add_days.simps)
qed

lemma entry_count_empty: "e \<in> set (dates now D Map.empty) \<Longrightarrow> entry_count e = 0"
  by (auto simp: dates_def date_entry_def Let_def)

lemma fold_max_zero: "\<forall>x \<in> set xs. x = (0::nat) \<Longrightarrow> fold max xs 0 = 0"
  by (induction xs) simp_all

lemma max_count_empty: "max_count (dates now D Map.empty) = 0"
  unfolding max_count_def by (rule fold_max_zero) (auto simp: entry_count_empty)

lemma rect_fill_empty:
  assumes "r \<in> set (cell_rects c g (dates now D Map.empty))"
  shows "rect_fill r = colors ! 0"
proof -
  obtain i where i: "i < length (dates now D Map.empty)"
    and r: "r = cell_rects c g (dates now D Map.empty) ! i"
    using assms by (metis in_set_conv_nth length_cell_rects)
  show ?thesis
    unfolding r nth_cell_rects[OF i] rect_fill_cell_rect max_count_empty colorIndex_zero_max ..
qed

text \<open>
  Claim C5. When the fetch of an account fails, the run goes on: every configured account
  is still fetched, in order, every day record of every account whose fetch succeeds is
  counted, the image is written, and the exit status is 2, which is neither 0 nor the
  status 1 of the fatal exit (no global \<^verbatim>\<open>fetch\<close>).
\<close>

theorem partial_failure:
  assumes "fetch_defined w" "u \<in> set (USERNAMES (env w))" "isl (doFetch w u)"
  shows "exit_status (main w) = 2
     \<and> exit_status (main (w\<lparr>fetch_defined := False\<rparr>)) = 1
     \<and> exit_status (main w) \<noteq> exit_status (main (w\<lparr>fetch_defined := False\<rparr>))
     \<and> artifact (main w) =
         Some (svg_document (cell (env w)) (gap (env w)) (weeks (clock w) (DAYS (env w)))
                 (dates (clock w) (DAYS (env w)) (aggregated (fetched w))))
     \<and> filter is_Log (console (fetched w)) =
         map (\<lambda>v. Log (''Fetching contributions for '' @ v)) (USERNAMES (env w))
     \<and> aggregated (fetched w) =
         add_days (concat (map (returned w)
                     (filter (\<lambda>v. \<not> isl (doFetch w v)) (USERNAMES (env w))))) Map.empty
     \<and> (\<forall>v \<in> set (USERNAMES (env w)). \<forall>d \<in> set (returned w v).
           \<exists>c. aggregated (fetched w) (day_date d) = Some c \<and> day_count d \<le> c)"
proof -
  have a: "exit_status (main w) = 2"
    using assms by (auto simp: exit_status_main)
  have b: "exit_status (main (w\<lparr>fetch_defined := False\<rparr>)) = 1"
    by (simp add: exit_status_main_fatal)
  have c: "exit_status (main w) \<noteq> exit_status (main (w\<lparr>fetch_defined := False\<rparr>))"
    unfolding a b by simp
  have d: "aggregated (fetched w) =
         add_days (concat (map (returned w)
                     (filter (\<lambda>v. \<not> isl (doFetch w v)) (USERNAMES (env w))))) Map.empty"
    unfolding concat_returned_successful by (rule aggregated_fetched)
  have e: "\<forall>v \<in> set (USERNAMES (env w)). \<forall>d \<in> set (returned w v).
           \<exists>c. aggregated (fetched w) (day_date d) = Some c \<and> day_count d \<le> c"
    unfolding fetched_def using counted_account by blast
  from a b c artifact_main[OF assms(1)] log_lines_fetched[of w] d e
  show ?thesis by (intro conjI)
qed

theorem partial_failure_witness:
  "fetch_defined partial_world
   \<and> ''nobody'' \<in> set (USERNAMES (env partial_world))
   \<and> isl (doFetch partial_world ''nobody'')
   \<and> exit_status (main partial_world) = 2
   \<and> exit_status (main (partial_world\<lparr>fetch_defined := False\<rparr>)) = 1
   \<and> artifact (main partial_world) \<noteq> None
   \<and> aggregated (fetched partial_world) ''2024-01-02'' = Some 1"
proof -
  have f: "fetch_defined partial_world" by code_simp
  have u: "''nobody'' \<in> set (USERNAMES (env partial_world))" by code_simp
  have e: "isl (doFetch partial_world ''nobody'')" by code_simp
  have b: "aggregated (fetched partial_world) ''2024-01-02'' = Some 1" by code_simp
  from partial_failure[OF f u e] f u e b show ?thesis by simp
qed

text \<open>
  Claim C6. When there are accounts and the fetch of every one of them fails, the
  aggregated mapping is empty, every cell of the grid has count 0 and bucket 0 (and for a
  window of at least one day the grid has its seven cells per week), the image of that
  grid is written, and the exit status is 2.
\<close>

theorem total_failure:
  assumes "fetch_defined w" "USERNAMES (env w) \<noteq> []"
    and "\<forall>u \<in> set (USERNAMES (env w)). isl (doFetch w u)"
  shows "aggregated (fetched w) = Map.empty
     \<and> (\<forall>e \<in> set (dates (clock w) (DAYS (env w)) (aggregated (fetched w))). entry_count e = 0)
     \<and> max_count (dates (clock w) (DAYS (env w)) (aggregated (fetched w))) = 0
     \<and> (\<forall>e \<in> set (dates (clock w) (DAYS (env w)) (aggregated (fetched w))).
           colorIndex (max_count (dates (clock w) (DAYS (env w)) (aggregated (fetched w))))
             (entry_count e) = 0)
     \<and> (\<forall>r \<in> set (cell_rects (cell (env w)) (gap (env w))
                      (dates (clock w) (DAYS (env w)) (aggregated (fetched w)))).
           rect_fill r = colors ! 0)
     \<and> (1 \<le> DAYS (env w) \<longrightarrow>
           int (length (dates (clock w) (DAYS (env w)) (aggregated (fetched w)))) =
           7 * weeks (clock w) (DAYS (env w))
           \<and> 1 \<le> weeks (clock w) (DAYS (env w)))
     \<and> artifact (main w) =
         Some (svg_document (cell (env w)) (gap (env w)) (weeks (clock w) (DAYS (env w)))
                 (dates (clock w) (DAYS (env w)) Map.empty))
     \<and> exit_status (main w) = 2"
proof -
  have agg: "aggregated (fetched w) = Map.empty"
    using assms(3) by (rule aggregated_all_failed)
  have "\<exists>u \<in> set (USERNAMES (env w)). isl (doFetch w u)"
    using assms(2,3) by (cases "USERNAMES (env w)") simp_all
  then have ex: "exit_status (main w) = 2"
    using assms(1) by (simp add: exit_status_main)
  have grid: "1 \<le> DAYS (env w) \<longrightarrow>
           int (length (dates (clock w) (DAYS (env w)) Map.empty)) =
           7 * weeks (clock w) (DAYS (env w))
           \<and> 1 \<le> weeks (clock w) (DAYS (env w))"
  proof
    assume d: "1 \<le> DAYS (env w)"
    have "7 \<le> totalDays (clock w) (DAYS (env w))" using d by (rule totalDays_ge)
    then show "int (length (dates (clock w) (DAYS (env w)) Map.empty)) =
           7 * weeks (clock w) (DAYS (env w))
           \<and> 1 \<le> weeks (clock w) (DAYS (env w))"
      using totalDays_weeks[of "clock w" "DAYS (env w)"] by (simp add: length_dates)
  qed
  have art: "artifact (main w) =
         Some (svg_document (cell (env w)) (gap (env w)) (weeks (clock w) (DAYS (env w)))
                 (dates (clock w) (DAYS (env w)) Map.empty))"
    using artifact_main[OF assms(1)] unfolding agg .
  show ?thesis
    unfolding agg
    using grid art ex
    by (simp add: entry_count_empty max_count_empty rect_fill_empty colorIndex_zero_max)
qed

theorem total_failure_witness:
  "fetch_defined failed_world
   \<and> USERNAMES (env failed_world) = [''nobody'', ''ghost'']
   \<and> isl (doFetch failed_world ''nobody'') \<and> isl (doFetch failed_world ''ghost'')
   \<and> 1 \<le> DAYS (env failed_world)
   \<and> aggregated (fetched failed_world) = Map.empty
   \<and> max_count (dates (clock failed_world) (DAYS (env failed_world))
                  (aggregated (fetched failed_world))) = 0
   \<and> int (length (dates (clock failed_world) (DAYS (env failed_world))
                     (aggregated (fetched failed_world)))) =
      7 * weeks (clock failed_world) (DAYS (env failed_world))
   \<and> artifact (main failed_world) \<noteq> None
   \<and> exit_status (main failed_world) = 2"
proof -
  have f: "fetch_defined failed_world" by code_simp
  have u: "USERNAMES (env failed_world) = [''nobody'', ''ghost'']" by code_simp
  have e: "isl (doFetch failed_world ''nobody'')" "isl (doFetch failed_world ''ghost'')"
    by code_simp+
  have d: "1 \<le> DAYS (env failed_world)" by code_simp
  have n: "USERNAMES (env failed_world) \<noteq> []" unfolding u by simp
  have a: "\<forall>u \<in> set (USERNAMES (env failed_world)). isl (doFetch failed_world u)"
    unfolding u using e by simp
  from total_failure[OF f n a] f u e d show ?thesis by auto
qed

subsection \<open>Determinism\<close>

lemma fetch_request_cong:
  assumes "env w1 = env w2" "clock w1 = clock w2"
  shows "fetch_request w1 u = fetch_request w2 u"
  unfolding fetch_request_def assms ..

lemma fetch_user_cong:
  assumes "remote w1 (fetch_request w1 u) = remote w2 (fetch_request w2 u)"
  shows "fetch_user w1 u s = fetch_user w2 u s"
proof -
  have "doFetch w1 u = doFetch w2 u" unfolding doFetch_def assms ..
  then show ?thesis unfolding fetch_user_def by (rule arg_cong)
qed

lemma fetch_loop_cong:
  assumes "\<forall>u \<in> set us. remote w1 (fetch_request w1 u) = remote w2 (fetch_request w2 u)"
  shows "fetch_loop w1 us s = fetch_loop w2 us s"
  using assms
proof (induction us arbitrary: s)
  case Nil
  show ?case by simp
next
  case (Cons u us)
  have "fetch_user w1 u s = fetch_user w2 u s"
    using Cons.prems by (intro fetch_user_cong) simp
  moreover have "fetch_loop w1 us (fetch_user w2 u s) = fetch_loop w2 us (fetch_user w2 u s)"
    using Cons.prems by (intro Cons.IH) simp
  ultimately show ?case by simp
qed

text \<open>
  Claim C9. Two runs with the same environment, the same clock, the same runtime and the
  same answers of the remote endpoint to the requests of the configured accounts end in
  the same outcome: the same bytes in the image, the same exit status, the same console.
\<close>

theorem run_deterministic:
  assumes "env w1 = env w2" "clock w1 = clock w2" "fetch_defined w1 = fetch_defined w2"
    and "\<forall>u \<in> set (USERNAMES (env w1)).
           remote w1 (fetch_request w1 u) = remote w2 (fetch_request w2 u)"
  shows "main w1 = main w2 \<and> artifact (main w1) = artifact (main w2)
     \<and> exit_status (main w1) = exit_status (main w2)"
proof -
  have "fetch_loop w1 (USERNAMES (env w1)) s = fetch_loop w2 (USERNAMES (env w1)) s" for s
    using assms(4) by (rule fetch_loop_cong)
  then have "fetched w1 = fetched w2"
    unfolding fetched_def assms(1) by simp
  then have "main w1 = main w2"
    unfolding main_def assms(1,2,3) by (rule arg_cong)
  then show ?thesis by simp
qed

theorem run_deterministic_witness:
  "env sample_world = env other_world \<and> clock sample_world = clock other_world
   \<and> fetch_defined sample_world = fetch_defined other_world
   \<and> USERNAMES (env sample_world) = [''A'', ''B'']
   \<and> remote sample_world (fetch_request sample_world ''A'') =
      remote other_world (fetch_request other_world ''A'')
   \<and> remote sample_world (fetch_request sample_world ''B'') =
      remote other_world (fetch_request other_world ''B'')
   \<and> main sample_world = main other_world
   \<and> artifact (main sample_world) = artifact (main other_world)"
proof -
  have a: "env sample_world = env other_world" "clock sample_world = clock other_world"
    "fetch_defined sample_world = fetch_defined other_world"
    by (simp_all add: other_world_def)
  have u: "USERNAMES (env sample_world) = [''A'', ''B'']" by code_simp
  have r: "remote sample_world (fetch_request sample_world ''A'') =
           remote other_world (fetch_request other_world ''A'')"
     "remote sample_world (fetch_request sample_world ''B'') =
           remote other_world (fetch_request other_world ''B'')"
    by (simp_all add: other_world_def sample_world_def fetch_request_def)
  have h: "\<forall>u \<in> set (USERNAMES (env sample_world)).
           remote sample_world (fetch_request sample_world u) =
           remote other_world (fetch_request other_world u)"
    unfolding u using r by simp
  from run_deterministic[OF a h] a u r show ?thesis by simp
qed

subsection \<open>The account list\<close>

lemma split_on_nonempty: "split_on c s \<noteq> []"
  by (induction s) (auto split: list.splits)

lemma split_on_no_separator: "w \<in> set (split_on c s) \<Longrightarrow> c \<notin> set w"
proof (induction s arbitrary: w)
  case Nil
  then show ?case by simp
next
  case (Cons x xs)
  show ?case
  proof (cases "x = c")
    case True
    with Cons show ?thesis by auto
  next
    case False
    obtain v vs where vs: "split_on c xs = v # vs"
      using split_on_nonempty[of c xs] by (cases "split_on c xs") auto
    with False Cons.prems have "w = x # v \<or> w \<in> set vs" by auto
    then show ?thesis
      using False Cons.IH[of v] Cons.IH[of w] vs by auto
  qed
qed

lemma join_split_on: "join c (split_on c s) = s"
proof (induction s)
  case Nil
  show ?case by simp
next
  case (Cons x xs)
  obtain v vs where vs: "split_on c xs = v # vs"
    using split_on_nonempty[of c xs] by (cases "split_on c xs") auto
  show ?case
  proof (cases "x = c")
    case True
    then show ?thesis using Cons vs by simp
  next
    case False
    then show ?thesis using Cons vs by (cases vs) simp_all
  qed
qed

lemma split_on_separators: "split_on c (replicate n c) = replicate (Suc n) []"
  by (induction n) simp_all

lemma set_trim: "set (trim s) \<subseteq> set s"
proof
  fix x
  assume "x \<in> set (trim s)"
  then have "x \<in> set (dropWhile isSpace (rev (dropWhile isSpace s)))"
    by (simp add: trim_def)
  then have "x \<in> set (rev (dropWhile isSpace s))" by (rule set_dropWhileD)
  then have "x \<in> set (dropWhile isSpace s)" by simp
  then show "x \<in> set s" by (rule set_dropWhileD)
qed

lemma trim_last: "trim s \<noteq> [] \<Longrightarrow> \<not> isSpace (last (trim s))"
proof -
  assume "trim s \<noteq> []"
  then have ne: "dropWhile isSpace (rev (dropWhile isSpace s)) \<noteq> []"
    by (simp add: trim_def)
  then have "\<not> isSpace (hd (dropWhile isSpace (rev (dropWhile isSpace s))))"
    by (rule hd_dropWhile)
  then show ?thesis using ne by (simp add: trim_def last_rev)
qed

lemma trim_hd: "trim s \<noteq> [] \<Longrightarrow> \<not> isSpace (hd (trim s))"
proof -
  let ?t = "dropWhile isSpace s"
  let ?r = "dropWhile isSpace (rev ?t)"
  assume "trim s \<noteq> []"
  then have ne: "?r \<noteq> []" by (simp add: trim_def)
  have t: "?t \<noteq> []"
  proof
    assume e: "?t = []"
    have "?r = []" unfolding e by simp
    with ne show False ..
  qed
  have "?r = drop (length (takeWhile isSpace (rev ?t))) (rev ?t)"
    by (rule dropWhile_eq_drop)
  moreover have "length (takeWhile isSpace (rev ?t)) < length (rev ?t)"
    using ne calculation by (metis drop_all not_le)
  ultimately have "last ?r = last (rev ?t)" by simp
  then have "hd (trim s) = hd ?t"
    using ne t by (simp add: trim_def hd_rev last_rev)
  moreover have "\<not> isSpace (hd ?t)" using t by (rule hd_dropWhile)
  ultimately show ?thesis by simp
qed

lemma trim_empty: "trim [] = []"
  by (simp add: trim_def)

lemma USERNAMES_set:
  "USERNAMES_var e = Some s \<Longrightarrow> s \<noteq> [] \<Longrightarrow>
   USERNAMES e = filter (\<lambda>u. u \<noteq> []) (map trim (split_on CHR '','' s))"
  by (simp add: USERNAMES_def or_else_def)

lemma USERNAMES_unset:
  "USERNAMES_var e = None \<or> USERNAMES_var e = Some [] \<Longrightarrow>
   USERNAMES e = [''migaradenuwan'', ''MigaraDenuwan-Tokyo'']"
  by (auto simp: USERNAMES_def or_else_def default_usernames_def trim_def isSpace_def)

lemma USERNAMES_clean:
  assumes "u \<in> set (USERNAMES e)"
  shows "u \<noteq> [] \<and> \<not> isSpace (hd u) \<and> \<not> isSpace (last u) \<and> CHR '','' \<notin> set u"
proof -
  obtain p where p: "p \<in> set (split_on CHR '','' (case or_else (USERNAMES_var e) None of
                                       None \<Rightarrow> default_usernames | Some s \<Rightarrow> s))"
    and u: "u = trim p" and ne: "u \<noteq> []"
    using assms unfolding USERNAMES_def by auto
  have "CHR '','' \<notin> set p" using p by (rule split_on_no_separator)
  then have "CHR '','' \<notin> set u" using set_trim[of p] u by auto
  then show ?thesis using ne trim_hd[of p] trim_last[of p] u by simp
qed

text \<open>
  Claim C10. The accounts variable is split at its commas, every piece is trimmed of the
  white space around it, and the empty pieces are dropped: no account of the list is
  empty, begins or ends with white space, or holds a comma. The text \<open>a, b,,c\<close> gives the
  accounts \<open>a\<close>, \<open>b\<close>, \<open>c\<close>; a text of commas only gives no account; an unset or empty
  variable gives the two default accounts.
\<close>

theorem usernames_parsed:
  "(\<forall>u \<in> set (USERNAMES e).
      u \<noteq> [] \<and> \<not> isSpace (hd u) \<and> \<not> isSpace (last u) \<and> CHR '','' \<notin> set u)
   \<and> (s \<noteq> [] \<longrightarrow>
        USERNAMES (e\<lparr>USERNAMES_var := Some s\<rparr>) =
          filter (\<lambda>u. u \<noteq> []) (map trim (split_on CHR '','' s))
        \<and> join CHR '','' (split_on CHR '','' s) = s)
   \<and> USERNAMES (e\<lparr>USERNAMES_var := Some ''a, b,,c''\<rparr>) = [''a'', ''b'', ''c'']
   \<and> USERNAMES (e\<lparr>USERNAMES_var := Some (replicate (Suc n) CHR '','')\<rparr>) = []
   \<and> USERNAMES (e\<lparr>USERNAMES_var := None\<rparr>) = [''migaradenuwan'', ''MigaraDenuwan-Tokyo'']
   \<and> USERNAMES (e\<lparr>USERNAMES_var := Some []\<rparr>) = [''migaradenuwan'', ''MigaraDenuwan-Tokyo'']"
proof -
  have a: "\<forall>u \<in> set (USERNAMES e).
      u \<noteq> [] \<and> \<not> isSpace (hd u) \<and> \<not> isSpace (last u) \<and> CHR '','' \<notin> set u"
    using USERNAMES_clean by blast
  have b: "s \<noteq> [] \<longrightarrow>
        USERNAMES (e\<lparr>USERNAMES_var := Some s\<rparr>) =
          filter (\<lambda>u. u \<noteq> []) (map trim (split_on CHR '','' s))
        \<and> join CHR '','' (split_on CHR '','' s) = s"
    by (simp add: USERNAMES_set join_split_on)
  have c: "USERNAMES (e\<lparr>USERNAMES_var := Some ''a, b,,c''\<rparr>) = [''a'', ''b'', ''c'']"
    by (simp add: USERNAMES_def or_else_def trim_def isSpace_def)
  have "USERNAMES (e\<lparr>USERNAMES_var := Some (replicate (Suc n) CHR '','')\<rparr>) =
        filter (\<lambda>u. u \<noteq> []) (map trim (split_on CHR '','' (replicate (Suc n) CHR '','')))"
    by (rule USERNAMES_set) simp_all
  then have d: "USERNAMES (e\<lparr>USERNAMES_var := Some (replicate (Suc n) CHR '','')\<rparr>) = []"
    by (simp only: split_on_separators) (simp add: trim_empty)
  have f: "USERNAMES (e\<lparr>USERNAMES_var := None\<rparr>) = [''migaradenuwan'', ''MigaraDenuwan-Tokyo'']"
    "USERNAMES (e\<lparr>USERNAMES_var := Some []\<rparr>) = [''migaradenuwan'', ''MigaraDenuwan-Tokyo'']"
    by (simp_all add: USERNAMES_unset)
  from a b c d f show ?thesis by (intro conjI)
qed

theorem usernames_parsed_witness:
  "''b'' \<in> set (USERNAMES (sample_env\<lparr>USERNAMES_var := Some ''a, b,,c''\<rparr>))
   \<and> \<not> isSpace (hd ''b'') \<and> \<not> isSpace (last ''b'') \<and> CHR '','' \<notin> set ''b''
   \<and> ''a, b,,c'' \<noteq> []
   \<and> USERNAMES (sample_env\<lparr>USERNAMES_var := Some ''a, b,,c''\<rparr>) = [''a'', ''b'', ''c'']
   \<and> join CHR '','' (split_on CHR '','' ''a, b,,c'') = ''a, b,,c''
   \<and> USERNAMES (sample_env\<lparr>USERNAMES_var := Some (replicate (Suc 2) CHR '','')\<rparr>) = []"
proof -
  note t = usernames_parsed[of "sample_env\<lparr>USERNAMES_var := Some ''a, b,,c''\<rparr>" "''a, b,,c''" 2]
  note s = usernames_parsed[of sample_env "''a, b,,c''" 2]
  have m: "''b'' \<in> set (USERNAMES (sample_env\<lparr>USERNAMES_var := Some ''a, b,,c''\<rparr>))"
    by code_simp
  have n: "''a, b,,c'' \<noteq> []" by simp
  from t have "\<forall>u \<in> set (USERNAMES (sample_env\<lparr>USERNAMES_var := Some ''a, b,,c''\<rparr>)).
      u \<noteq> [] \<and> \<not> isSpace (hd u) \<and> \<not> isSpace (last u) \<and> CHR '','' \<notin> set u"
    by (rule conjunct1)
  from this m have b: "''b'' \<noteq> [] \<and> \<not> isSpace (hd ''b'') \<and> \<not> isSpace (last ''b'')
      \<and> CHR '','' \<notin> set ''b''"
    by (rule bspec)
  from s n have j: "join CHR '','' (split_on CHR '','' ''a, b,,c'') = ''a, b,,c''"
    by blast
  from s have x: "USERNAMES (sample_env\<lparr>USERNAMES_var := Some ''a, b,,c''\<rparr>) = [''a'', ''b'', ''c'']"
    by blast
  from s have k: "USERNAMES (sample_env\<lparr>USERNAMES_var := Some (replicate (Suc 2) CHR '','')\<rparr>) = []"
    by blast
  from m b n x j k show ?thesis by blast
qed

end
